theory Spec2Isabelle
  imports
    Complex_Main
    "HOL-Library.Multiset"
    "HOL-Library.Char_ord"
    "HOL-Library.List_Lexorder"
    "HOL-Library.Log_Nat"
begin

section \<open>Roommate chore rotation: the rotation calculator\<close>

text \<open>
  The repository has two servers and two storage modules.
  \<^item> \<^verbatim>\<open>src/unnamed/part_001\<close> is the server of the SQLite module (the first half of
    \<^verbatim>\<open>src/database.js\<close>); its catalogue has two chores.
  \<^item> \<^verbatim>\<open>src/unnamed/part_000\<close> is the server of the JSON-file module (the second half of
    \<^verbatim>\<open>src/database.js\<close>); its catalogue has four chores.
  Both servers contain the same \<^verbatim>\<open>calculateMonthlyAssignments\<close>, closed over the module
  constants \<^verbatim>\<open>ROOMMATES\<close> and \<^verbatim>\<open>TASKS\<close>; here the two constants are parameters.
\<close>

subsection \<open>JavaScript values used by the rotation\<close>

text \<open>
  Numbers are binary64. The rotation computes with whole numbers only: a finite number
  with an integer value is that \<open>int\<close>, and \<open>None\<close> stands for a number that is not finite
  (an infinity or \<^verbatim>\<open>NaN\<close>). The result of \<^verbatim>\<open>*\<close> and \<^verbatim>\<open>+\<close> is the exact result rounded to the
  nearest number with a 53-bit significand, a tie going to the even significand, and it is
  infinite when the rounded magnitude reaches \<open>2^1024\<close>. Every integer up to \<open>2^53\<close> is a
  number, so up to there the arithmetic is exact; beyond, it is not (\<open>2^53 + 1\<close> is no
  number).
\<close>

text \<open>The integer nearest to \<open>N / D\<close>, for \<open>0 < D\<close>; a tie goes to the even integer.\<close>

definition round_half_even :: "int \<Rightarrow> int \<Rightarrow> int" where
  "round_half_even N D =
     (let q = N div D; r = N mod D in
      if D < 2 * r \<or> (2 * r = D \<and> odd q) then q + 1 else q)"

definition nearest_double :: "int \<Rightarrow> int option" where
  "nearest_double x =
     (let sh = nat (bitlen \<bar>x\<bar> - 53);
          r = round_half_even x (2 ^ sh) * 2 ^ sh
      in if \<bar>r\<bar> < 2 ^ 1024 then Some r else None)"

type_synonym js_integer = "int option"

text \<open>
  \<^verbatim>\<open>a * b\<close> and \<^verbatim>\<open>a + b\<close>. An operand that is not finite gives a result that is not finite
  (the other operand being finite or not).
\<close>

definition js_times :: "js_integer \<Rightarrow> js_integer \<Rightarrow> js_integer" where
  "js_times a b = (case (a, b) of (Some x, Some y) \<Rightarrow> nearest_double (x * y) | _ \<Rightarrow> None)"

definition js_plus :: "js_integer \<Rightarrow> js_integer \<Rightarrow> js_integer" where
  "js_plus a b = (case (a, b) of (Some x, Some y) \<Rightarrow> nearest_double (x + y) | _ \<Rightarrow> None)"

text \<open>
  \<^verbatim>\<open>a % b\<close> truncates towards zero: the result has the sign of the dividend
  (\<^verbatim>\<open>-1 % 4\<close> is \<^verbatim>\<open>-1\<close>), and it is exact. With a finite divisor \<open>b\<close> it is \<^verbatim>\<open>NaN\<close> when \<open>a\<close>
  is not finite or \<open>b\<close> is zero.
\<close>

definition js_rem :: "int \<Rightarrow> int \<Rightarrow> int" where
  "js_rem a b = (if a < 0 then - ((- a) mod \<bar>b\<bar>) else a mod \<bar>b\<bar>)"

definition js_percent :: "js_integer \<Rightarrow> int \<Rightarrow> js_integer" where
  "js_percent a b = (case a of Some x \<Rightarrow> if b = 0 then None else Some (js_rem x b) | None \<Rightarrow> None)"

text \<open>
  \<^verbatim>\<open>xs[i]\<close> on an array: \<^verbatim>\<open>undefined\<close> (here \<open>None\<close>) outside \<open>0 .. length - 1\<close>, and for an
  index that is not finite.
\<close>

definition js_index :: "'a list \<Rightarrow> int \<Rightarrow> 'a option" where
  "js_index xs i = (if 0 \<le> i \<and> i < int (length xs) then Some (xs ! nat i) else None)"

definition js_element :: "'a list \<Rightarrow> js_integer \<Rightarrow> 'a option" where
  "js_element xs i = (case i of Some k \<Rightarrow> js_index xs k | None \<Rightarrow> None)"

text \<open>
  A plain object is the list of its own properties in insertion order; assigning to an
  existing key keeps the key's position.
\<close>

fun obj_set :: "(string \<times> 'v) list \<Rightarrow> string \<Rightarrow> 'v \<Rightarrow> (string \<times> 'v) list" where
  "obj_set [] k v = [(k, v)]"
| "obj_set ((k', v') # kvs) k v =
     (if k' = k then (k, v) # kvs else (k', v') # obj_set kvs k v)"

definition ROOMMATES :: "string list" where
  "ROOMMATES = [''deepanshu'', ''sonu'', ''sachin'', ''sintu'']"

text \<open>\<^verbatim>\<open>TASKS\<close> of \<^verbatim>\<open>part_000\<close> and of \<^verbatim>\<open>part_001\<close>.\<close>

definition TASKS :: "string list" where
  "TASKS = [''Kitchen Cleaning'', ''Bathroom Cleaning'', ''Hall Sweeping'', ''Trash Removal'']"

definition TASKS_sqlite :: "string list" where
  "TASKS_sqlite = [''Kachra Fekna'', ''Pani Lana'']"

text \<open>
  \<^verbatim>\<open>
  function calculateMonthlyAssignments(month, year) {
      const seed = (year * 12) + month;
      const assignments = {};
      TASKS.forEach((task, taskIndex) => {
          const roommateIndex = (seed + taskIndex) % ROOMMATES.length;
          assignments[task] = ROOMMATES[roommateIndex];
      });
      return assignments;
  }
  \<close>
  \<open>month\<close> and \<open>year\<close> are finite numbers with integer values (the callers pass
  \<^verbatim>\<open>now.getMonth() + 1\<close> and \<^verbatim>\<open>now.getFullYear()\<close>). The result is the object
  \<^verbatim>\<open>assignments\<close>, its own properties in insertion order; a value \<open>None\<close> is \<^verbatim>\<open>undefined\<close>.
  Assigning a string or \<^verbatim>\<open>undefined\<close> to the key \<^verbatim>\<open>__proto__\<close> creates no property.
\<close>

definition calculateMonthlyAssignments ::
  "string list \<Rightarrow> string list \<Rightarrow> int \<Rightarrow> int \<Rightarrow> (string \<times> string option) list" where
  "calculateMonthlyAssignments roster catalog month year =
     (let seed = js_plus (js_times (Some year) (Some 12)) (Some month) in
      fold (\<lambda>(task, taskIndex) assignments.
              let roommateIndex =
                    js_percent (js_plus seed (Some (int taskIndex))) (int (length roster))
              in if task = ''__proto__'' then assignments
                 else obj_set assignments task (js_element roster roommateIndex))
           (zip catalog [0..<length catalog]) [])"

section \<open>The SQLite store (first module of \<^verbatim>\<open>src/database.js\<close>)\<close>

subsection \<open>Tables\<close>

text \<open>
  One record per table of \<^verbatim>\<open>initializeDatabase\<close>. Field names carry a table prefix, since
  several tables have columns of the same name. \<^verbatim>\<open>completed BOOLEAN DEFAULT 0\<close> holds 0 or 1
  and is read through \<^verbatim>\<open>Boolean(...)\<close> or as a truth value: a \<open>bool\<close>. A nullable column is
  an \<open>option\<close>. Timestamps (\<^verbatim>\<open>CURRENT_TIMESTAMP\<close>, \<^verbatim>\<open>toISOString()\<close>) are text.
\<close>

type_synonym timestamp = string

record user_row =
  u_id :: nat
  u_username :: string
  u_mobile_number :: string
  u_password_hash :: string

record task_row =
  t_id :: nat
  t_name :: string
  t_assigned_to :: string
  t_month :: int
  t_year :: int
  t_completed :: bool
  t_completed_at :: "timestamp option"

record history_row =
  h_id :: nat
  h_task_id :: nat
  h_username :: string
  h_action :: string
  h_timestamp :: timestamp

text \<open>The object \<^verbatim>\<open>{ name, completed, completedAt }\<close> built for a task.\<close>

record task_view =
  v_name :: string
  v_completed :: bool
  v_completedAt :: "timestamp option"

text \<open>
  \<^verbatim>\<open>report_data\<close> is \<^verbatim>\<open>JSON.stringify({ tasks: [...], generatedAt })\<close>, kept here as the pair
  it serialises.
\<close>

record report_row =
  r_id :: nat
  r_user_id :: nat
  r_username :: string
  r_month :: int
  r_year :: int
  r_tasks_assigned :: nat
  r_tasks_completed :: nat
  r_completion_percentage :: int
  r_report_data :: "task_view list \<times> timestamp"
  r_created_at :: timestamp

text \<open>
  The database: the four tables in row order, and for each \<^verbatim>\<open>AUTOINCREMENT\<close> key the
  largest id handed out so far (SQLite's \<^verbatim>\<open>sqlite_sequence\<close>).
\<close>

record database =
  users :: "user_row list"
  tasks :: "task_row list"
  task_history :: "history_row list"
  monthly_reports :: "report_row list"
  tasks_seq :: nat
  task_history_seq :: nat
  monthly_reports_seq :: nat

subsection \<open>The environment of one operation\<close>

text \<open>
  Every callback of the driver starts with \<^verbatim>\<open>if (err) return reject(err)\<close>. Whether the
  \<open>k\<close>-th driver call of an operation reports an error is an input, \<open>driver_err e k\<close>, and so
  is the clock at that call, \<open>clock e k\<close>. A statement that reports an error changes nothing.
\<close>

record env =
  driver_err :: "nat \<Rightarrow> bool"
  clock :: "nat \<Rightarrow> timestamp"

datatype error =
    StoreUnavailable  \<comment> \<open>the driver's \<^verbatim>\<open>err\<close>\<close>
  | NotFoundOrNotOwned  \<comment> \<open>\<^verbatim>\<open>new Error('Task not found or not assigned to you')\<close>\<close>
  | TypeError  \<comment> \<open>a property read on \<^verbatim>\<open>undefined\<close>\<close>

subsection \<open>JavaScript numbers in the report percentage\<close>

text \<open>
  \<^verbatim>\<open>(tasksCompleted / tasksAssigned) * 100\<close> is computed in binary64. The numbers involved are
  non-negative and far from overflow and underflow, so a number is a pair \<open>(m, e)\<close> that
  stands for \<open>m * 2^e\<close>, and each operation rounds the exact result to the nearest number
  with a 53-bit significand, ties to the even significand.
\<close>

type_synonym js_number = "int \<times> int"

definition js_val :: "js_number \<Rightarrow> rat" where
  "js_val x = of_int (fst x) * 2 powi (snd x)"

text \<open>An array length as a number: exact below \<open>2^53\<close>.\<close>

definition js_of_nat :: "nat \<Rightarrow> js_number" where
  "js_of_nat n = (int n, 0)"

text \<open>
  The binary64 number nearest to \<open>n / d\<close>, for \<open>0 \<le> n\<close> and \<open>0 < d\<close>. With \<open>ex\<close> the exponent
  of the quotient (\<open>2^ex \<le> n/d < 2^(ex+1)\<close>), the quotient is scaled into
  \<open>[2^52, 2^53)\<close> and rounded to an integer significand.
\<close>

definition quotient_exponent :: "int \<Rightarrow> int \<Rightarrow> int" where
  "quotient_exponent n d =
     (let k = bitlen n - bitlen d in
      if (if 0 \<le> k then d * 2 ^ nat k \<le> n else d \<le> n * 2 ^ nat (- k)) then k else k - 1)"

definition round_to_double :: "int \<Rightarrow> int \<Rightarrow> js_number" where
  "round_to_double n d =
     (if n = 0 then (0, 0)
      else let sh = 52 - quotient_exponent n d in
           (if 0 \<le> sh then round_half_even (n * 2 ^ nat sh) d
            else round_half_even n (d * 2 ^ nat (- sh)), - sh))"

text \<open>\<^verbatim>\<open>x / y\<close> for \<open>y\<close> other than zero, and \<^verbatim>\<open>x * y\<close>.\<close>

definition js_div :: "js_number \<Rightarrow> js_number \<Rightarrow> js_number" where
  "js_div x y = (let (m, e) = round_to_double (fst x) (fst y) in (m, e + snd x - snd y))"

definition js_mul :: "js_number \<Rightarrow> js_number \<Rightarrow> js_number" where
  "js_mul x y = (let (m, e) = round_to_double (fst x * fst y) 1 in (m, e + snd x + snd y))"

text \<open>\<^verbatim>\<open>Math.round(x)\<close>: the integer nearest to \<open>x\<close>, a tie going up; \<open>\<lfloor>x + 1/2\<rfloor>\<close>.\<close>

definition Math_round :: "js_number \<Rightarrow> int" where
  "Math_round x =
     (if 0 \<le> snd x then fst x * 2 ^ nat (snd x)
      else (2 * fst x + 2 ^ nat (- snd x)) div 2 ^ (nat (- snd x) + 1))"

subsection \<open>Objects: enumeration order and inherited properties\<close>

text \<open>
  \<^verbatim>\<open>Object.entries\<close> and \<^verbatim>\<open>Object.values\<close> list the own properties whose key is an array
  index (a canonical decimal numeral up to \<open>2^32 - 2\<close>) first, by value, and the others
  after them in insertion order.
\<close>

definition is_digit :: "char \<Rightarrow> bool" where
  "is_digit c = (CHR ''0'' \<le> c \<and> c \<le> CHR ''9'')"

definition decimal_value :: "string \<Rightarrow> nat" where
  "decimal_value s = foldl (\<lambda>n c. 10 * n + (of_char c - of_char CHR ''0'')) 0 s"

definition is_array_index :: "string \<Rightarrow> bool" where
  "is_array_index s =
     (s \<noteq> [] \<and> list_all is_digit s \<and> (s = ''0'' \<or> hd s \<noteq> CHR ''0'')
      \<and> decimal_value s < 2 ^ 32 - 1)"

definition Object_entries :: "(string \<times> 'v) list \<Rightarrow> (string \<times> 'v) list" where
  "Object_entries obj =
     sort_key (\<lambda>kv. decimal_value (fst kv)) (filter (\<lambda>kv. is_array_index (fst kv)) obj)
     @ filter (\<lambda>kv. \<not> is_array_index (fst kv)) obj"

definition Object_values :: "(string \<times> 'v) list \<Rightarrow> 'v list" where
  "Object_values obj = map snd (Object_entries obj)"

text \<open>
  A read \<^verbatim>\<open>obj[k]\<close> on an object created by \<^verbatim>\<open>{}\<close> finds an own property, or else a
  property inherited from \<^verbatim>\<open>Object.prototype\<close>, or else \<^verbatim>\<open>undefined\<close>.
\<close>

definition Object_prototype_keys :: "string list" where
  "Object_prototype_keys =
     [''constructor'', ''__defineGetter__'', ''__defineSetter__'', ''hasOwnProperty'',
      ''__lookupGetter__'', ''__lookupSetter__'', ''isPrototypeOf'', ''propertyIsEnumerable'',
      ''toString'', ''valueOf'', ''__proto__'', ''toLocaleString'']"

datatype 'v property = Own 'v | Inherited | Undefined

definition obj_get :: "(string \<times> 'v) list \<Rightarrow> string \<Rightarrow> 'v property" where
  "obj_get obj k =
     (case map_of obj k of
        Some v \<Rightarrow> Own v
      | None \<Rightarrow> if k \<in> set Object_prototype_keys then Inherited else Undefined)"

subsection \<open>Task operations\<close>





text \<open>
  \<^verbatim>\<open>
  function completeTask(taskName, username, month, year) {
      db.run(`UPDATE tasks SET completed = 1, completed_at = CURRENT_TIMESTAMP
              WHERE name = ? AND month = ? AND year = ? AND assigned_to = ?`, ...,
        function (err) {
          if (err) return reject(err);
          if (this.changes === 0)
            return reject(new Error('Task not found or not assigned to you'));
          db.get('SELECT id FROM tasks WHERE name = ? AND month = ? AND year = ?', ...,
            (err, task) => {
              if (err) return reject(err);
              db.run('INSERT INTO task_history (task_id, username, action) VALUES (?, ?, ?)',
                [task.id, username, 'completed'],
                (err) => { if (err) return reject(err); resolve(); });
            });
        });
  }
  \<close>
  \<^verbatim>\<open>this.changes\<close> counts the rows the \<^verbatim>\<open>WHERE\<close> clause selects, whatever they held before.
\<close>

definition completeTask ::
  "env \<Rightarrow> string \<Rightarrow> string \<Rightarrow> int \<Rightarrow> int \<Rightarrow> database \<Rightarrow> (error + unit) \<times> database" where
  "completeTask e taskName username month year db =
     (if driver_err e 0 then (Inl StoreUnavailable, db)
      else
        let hit = (\<lambda>t. t_name t = taskName \<and> t_month t = month \<and> t_year t = year
                        \<and> t_assigned_to t = username);
            changes = length (filter hit (tasks db));
            db1 = db\<lparr>tasks := map (\<lambda>t. if hit t
                                        then t\<lparr>t_completed := True,
                                               t_completed_at := Some (clock e 0)\<rparr>
                                        else t) (tasks db)\<rparr>
        in if changes = 0 then (Inl NotFoundOrNotOwned, db1)
           else if driver_err e 1 then (Inl StoreUnavailable, db1)
           else
             case find (\<lambda>t. t_name t = taskName \<and> t_month t = month \<and> t_year t = year)
                    (tasks db1) of
               None \<Rightarrow> (Inl TypeError, db1)
             | Some task \<Rightarrow>
                 if driver_err e 2 then (Inl StoreUnavailable, db1)
                 else (Inr (),
                       db1\<lparr>task_history := task_history db1 @
                              [\<lparr>h_id = Suc (task_history_seq db1), h_task_id = t_id task,
                                h_username = username, h_action = ''completed'',
                                h_timestamp = clock e 2\<rparr>],
                            task_history_seq := Suc (task_history_seq db1)\<rparr>))"

text \<open>
  \<^verbatim>\<open>getAllUsersStatus\<close>. The rows of
  \<^verbatim>\<open>users u LEFT JOIN tasks t ON t.assigned_to = u.username AND t.month = ? AND t.year = ?
  ORDER BY u.username\<close>: for each user in the order of the user names (compared bytewise),
  one row per matching task, or a single row of NULLs when no task matches.
\<close>

record status_row =
  s_username :: string
  s_task_name :: "string option"
  s_completed :: "bool option"
  s_completed_at :: "timestamp option"

record user_status =
  us_username :: string
  us_tasks :: "task_view list"

definition join_rows :: "int \<Rightarrow> int \<Rightarrow> task_row list \<Rightarrow> user_row \<Rightarrow> status_row list" where
  "join_rows month year ts u =
     (let matches = filter (\<lambda>t. t_assigned_to t = u_username u \<and> t_month t = month
                                  \<and> t_year t = year) ts
      in if matches = []
         then [\<lparr>s_username = u_username u, s_task_name = None, s_completed = None,
                s_completed_at = None\<rparr>]
         else map (\<lambda>t. \<lparr>s_username = u_username u, s_task_name = Some (t_name t),
                         s_completed = Some (t_completed t),
                         s_completed_at = t_completed_at t\<rparr>) matches)"

definition status_rows :: "int \<Rightarrow> int \<Rightarrow> database \<Rightarrow> status_row list" where
  "status_rows month year db =
     concat (map (join_rows month year (tasks db)) (sort_key u_username (users db)))"

text \<open>
  The body of \<^verbatim>\<open>rows.forEach\<close>:
  \<^verbatim>\<open>
  if (!userStatus[row.username]) {
    userStatus[row.username] = { username: row.username, tasks: [] };
  }
  if (row.task_name) {
    userStatus[row.username].tasks.push({
      name: row.task_name, completed: Boolean(row.completed), completedAt: row.completed_at });
  }
  \<close>
  An inherited property is truthy, so no entry is created for such a user name, and its
  \<^verbatim>\<open>.tasks\<close> is \<^verbatim>\<open>undefined\<close>: the \<^verbatim>\<open>push\<close> throws. The empty string is falsy.
\<close>

definition group_status_row ::
  "status_row \<Rightarrow> error + (string \<times> user_status) list
    \<Rightarrow> error + (string \<times> user_status) list" where
  "group_status_row row acc =
     (case acc of
        Inl x \<Rightarrow> Inl x
      | Inr userStatus \<Rightarrow>
          let userStatus1 =
                (case obj_get userStatus (s_username row) of
                   Undefined \<Rightarrow>
                     obj_set userStatus (s_username row)
                       \<lparr>us_username = s_username row, us_tasks = []\<rparr>
                 | _ \<Rightarrow> userStatus)
          in case s_task_name row of
               None \<Rightarrow> Inr userStatus1
             | Some task_name \<Rightarrow>
                 if task_name = [] then Inr userStatus1
                 else (case obj_get userStatus1 (s_username row) of
                         Own entry \<Rightarrow>
                           Inr (obj_set userStatus1 (s_username row)
                                  (entry\<lparr>us_tasks := us_tasks entry @
                                     [\<lparr>v_name = task_name,
                                       v_completed = (s_completed row = Some True),
                                       v_completedAt = s_completed_at row\<rparr>]\<rparr>))
                       | _ \<Rightarrow> Inl TypeError))"

definition getAllUsersStatus :: "env \<Rightarrow> int \<Rightarrow> int \<Rightarrow> database \<Rightarrow> error + user_status list" where
  "getAllUsersStatus e month year db =
     (if driver_err e 0 then Inl StoreUnavailable
      else case fold group_status_row (status_rows month year db) (Inr []) of
             Inl x \<Rightarrow> Inl x
           | Inr userStatus \<Rightarrow> Inr (Object_values userStatus))"

subsection \<open>Monthly reports\<close>

text \<open>The object that \<^verbatim>\<open>generateMonthlyReport\<close> resolves with.\<close>

record report =
  rp_userId :: nat
  rp_username :: string
  rp_month :: int
  rp_year :: int
  rp_tasksAssigned :: nat
  rp_tasksCompleted :: nat
  rp_completionPercentage :: int
  rp_reportData :: "task_view list \<times> timestamp"

text \<open>
  \<^verbatim>\<open>
  const tasksAssigned = tasks.length;
  const tasksCompleted = tasks.filter(t => t.completed).length;
  const completionPercentage = tasksAssigned > 0
    ? Math.round((tasksCompleted / tasksAssigned) * 100)
    : 0;
  \<close>
\<close>

definition completionPercentage :: "nat \<Rightarrow> nat \<Rightarrow> int" where
  "completionPercentage tasksCompleted tasksAssigned =
     (if tasksAssigned > 0
      then Math_round (js_mul (js_div (js_of_nat tasksCompleted) (js_of_nat tasksAssigned))
                         (js_of_nat 100))
      else 0)"

text \<open>
  \<^verbatim>\<open>generateMonthlyReport\<close>: the \<^verbatim>\<open>SELECT\<close> of the user's tasks of the period, the
  aggregates, and \<^verbatim>\<open>INSERT OR REPLACE INTO monthly_reports\<close>, which under
  \<^verbatim>\<open>UNIQUE(user_id, month, year)\<close> deletes the rows of the same key before it inserts the
  new row under a fresh id.
\<close>

definition generateMonthlyReport ::
  "env \<Rightarrow> nat \<Rightarrow> string \<Rightarrow> int \<Rightarrow> int \<Rightarrow> database \<Rightarrow> (error + report) \<times> database" where
  "generateMonthlyReport e userId username month year db =
     (if driver_err e 0 then (Inl StoreUnavailable, db)
      else
        let tasks' = filter (\<lambda>t. t_assigned_to t = username \<and> t_month t = month
                                 \<and> t_year t = year) (tasks db);
            tasksAssigned = length tasks';
            tasksCompleted = length (filter t_completed tasks');
            percentage = completionPercentage tasksCompleted tasksAssigned;
            reportData =
              (map (\<lambda>t. \<lparr>v_name = t_name t, v_completed = t_completed t,
                           v_completedAt = t_completed_at t\<rparr>) tasks',
               clock e 0)
        in if driver_err e 1 then (Inl StoreUnavailable, db)
           else (Inr \<lparr>rp_userId = userId, rp_username = username, rp_month = month,
                       rp_year = year, rp_tasksAssigned = tasksAssigned,
                       rp_tasksCompleted = tasksCompleted,
                       rp_completionPercentage = percentage, rp_reportData = reportData\<rparr>,
                 db\<lparr>monthly_reports :=
                      filter (\<lambda>r. \<not> (r_user_id r = userId \<and> r_month r = month
                                       \<and> r_year r = year)) (monthly_reports db)
                      @ [\<lparr>r_id = Suc (monthly_reports_seq db), r_user_id = userId,
                          r_username = username, r_month = month, r_year = year,
                          r_tasks_assigned = tasksAssigned,
                          r_tasks_completed = tasksCompleted,
                          r_completion_percentage = percentage,
                          r_report_data = reportData, r_created_at = clock e 1\<rparr>],
                    monthly_reports_seq := Suc (monthly_reports_seq db)\<rparr>))"




section \<open>The JSON-file store (second module of \<^verbatim>\<open>src/database.js\<close>)\<close>

text \<open>
  The state is the object that \<^verbatim>\<open>readDB\<close> parses and \<^verbatim>\<open>writeDB\<close> serialises; the file is
  taken to be readable and well formed. A property whose value is \<^verbatim>\<open>undefined\<close> is dropped
  by \<^verbatim>\<open>JSON.stringify\<close> and reads back as \<^verbatim>\<open>undefined\<close>: \<open>None\<close> either way.
\<close>

record juser =
  ju_id :: nat
  ju_username :: string
  ju_password_hash :: string

record jtask =
  jt_id :: int
  jt_name :: string
  jt_assigned_to :: "string option"
  jt_month :: int
  jt_year :: int
  jt_status :: string
  jt_completed_at :: "timestamp option"

record jreport =
  jr_id :: rat
  jr_user_id :: nat
  jr_username :: string
  jr_month :: int
  jr_year :: int
  jr_assigned_tasks :: nat
  jr_completed_tasks :: nat
  jr_completion_percentage :: js_number
  jr_report_data :: "jtask list"
  jr_created_at :: timestamp

record jdata =
  j_users :: "juser list"
  j_tasks :: "jtask list"
  j_monthly_reports :: "jreport list"

text \<open>
  The clock and the random source: the \<open>k\<close>-th \<^verbatim>\<open>Date.now()\<close>, \<^verbatim>\<open>Math.random()\<close> and
  \<^verbatim>\<open>new Date().toISOString()\<close> of an operation.
\<close>

record jenv =
  date_now :: "nat \<Rightarrow> int"
  math_random :: "nat \<Rightarrow> rat"
  iso_now :: "nat \<Rightarrow> timestamp"




text \<open>
  \<^verbatim>\<open>
  async function completeTask(taskId) {
    const data = readDB();
    const task = data.tasks.find(t => t.id === parseInt(taskId));
    if (task) {
      task.status = 'completed';
      task.completed_at = new Date().toISOString();
      writeDB(data);
      return true;
    }
    return false;
  }
  \<close>
  The argument is the value of \<^verbatim>\<open>parseInt(taskId)\<close>; \<open>None\<close> is \<^verbatim>\<open>NaN\<close>, equal to no id.
\<close>

fun update_first :: "('a \<Rightarrow> bool) \<Rightarrow> ('a \<Rightarrow> 'a) \<Rightarrow> 'a list \<Rightarrow> 'a list" where
  "update_first P f [] = []"
| "update_first P f (x # xs) = (if P x then f x # xs else x # update_first P f xs)"

definition completeTask_json :: "jenv \<Rightarrow> int option \<Rightarrow> jdata \<Rightarrow> bool \<times> jdata" where
  "completeTask_json e taskId data =
     (case find (\<lambda>t. Some (jt_id t) = taskId) (j_tasks data) of
        Some task \<Rightarrow>
          (True,
           data\<lparr>j_tasks :=
                  update_first (\<lambda>t. Some (jt_id t) = taskId)
                    (\<lambda>t. t\<lparr>jt_status := ''completed'', jt_completed_at := Some (iso_now e 0)\<rparr>)
                    (j_tasks data)\<rparr>)
      | None \<Rightarrow> (False, data))"

text \<open>
  The route of \<^verbatim>\<open>part_000\<close> that completes a task; the actor is the session's user.
  \<^verbatim>\<open>
  app.post('/api/tasks/complete', requireAuth, async (req, res) => {
      const { taskId } = req.body;
      const success = await completeTask(taskId);
      res.json({ success });
  });
  \<close>
\<close>

datatype response = Authentication_required | Json_success bool

definition post_tasks_complete ::
  "jenv \<Rightarrow> (nat \<times> string) option \<Rightarrow> int option \<Rightarrow> jdata \<Rightarrow> response \<times> jdata" where
  "post_tasks_complete e session_user taskId data =
     (case session_user of
        None \<Rightarrow> (Authentication_required, data)
      | Some user \<Rightarrow>
          let (success, data') = completeTask_json e taskId data
          in (Json_success success, data'))"

text \<open>
  \<^verbatim>\<open>generateAllMonthlyReports\<close> of the JSON-file store:
  \<^verbatim>\<open>
  const assignedCount = userTasks.length;
  const completedCount = userTasks.filter(t => t.status === 'completed').length;
  const completionRate = assignedCount > 0 ? (completedCount / assignedCount) * 100 : 100;
  const report = { id: Date.now() + Math.random(), user_id: user.id, ...,
                   completion_percentage: completionRate, ... };
  data.monthly_reports.push(report);
  \<close>
\<close>

definition completionRate :: "nat \<Rightarrow> nat \<Rightarrow> js_number" where
  "completionRate completedCount assignedCount =
     (if assignedCount > 0
      then js_mul (js_div (js_of_nat completedCount) (js_of_nat assignedCount)) (js_of_nat 100)
      else js_of_nat 100)"

definition user_report_json :: "jenv \<Rightarrow> int \<Rightarrow> int \<Rightarrow> jdata \<Rightarrow> juser \<times> nat \<Rightarrow> jreport" where
  "user_report_json e month year data = (\<lambda>(user, k).
     let userTasks = filter (\<lambda>t. jt_assigned_to t = Some (ju_username user)
                                  \<and> jt_month t = month \<and> jt_year t = year) (j_tasks data);
         assignedCount = length userTasks;
         completedCount = length (filter (\<lambda>t. jt_status t = ''completed'') userTasks)
     in \<lparr>jr_id = of_int (date_now e k) + math_random e k, jr_user_id = ju_id user,
         jr_username = ju_username user, jr_month = month, jr_year = year,
         jr_assigned_tasks = assignedCount, jr_completed_tasks = completedCount,
         jr_completion_percentage = completionRate completedCount assignedCount,
         jr_report_data = userTasks, jr_created_at = iso_now e k\<rparr>)"

definition generateAllMonthlyReports_json ::
  "jenv \<Rightarrow> int \<Rightarrow> int \<Rightarrow> jdata \<Rightarrow> jreport list \<times> jdata" where
  "generateAllMonthlyReports_json e month year data =
     (let reports = map (user_report_json e month year data)
                      (zip (j_users data) [0..<length (j_users data)])
      in (reports, data\<lparr>j_monthly_reports := j_monthly_reports data @ reports\<rparr>))"

section \<open>Keys and example states\<close>

text \<open>The columns of \<^verbatim>\<open>UNIQUE(name, month, year)\<close> and of \<^verbatim>\<open>UNIQUE(user_id, month, year)\<close>.\<close>

definition task_key :: "task_row \<Rightarrow> string \<times> int \<times> int" where
  "task_key t = (t_name t, t_month t, t_year t)"

definition report_key :: "report_row \<Rightarrow> nat \<times> int \<times> int" where
  "report_key r = (r_user_id r, r_month r, r_year r)"


text \<open>
  Vocabulary of the properties: the tasks of a period that are assigned to a user, in
  either store, and the object built for a task row.
\<close>

definition tasks_of :: "string \<Rightarrow> int \<Rightarrow> int \<Rightarrow> task_row list \<Rightarrow> task_row list" where
  "tasks_of username month year ts =
     filter (\<lambda>t. t_assigned_to t = username \<and> t_month t = month \<and> t_year t = year) ts"

definition jtasks_of :: "string \<Rightarrow> int \<Rightarrow> int \<Rightarrow> jtask list \<Rightarrow> jtask list" where
  "jtasks_of username month year ts =
     filter (\<lambda>t. jt_assigned_to t = Some username \<and> jt_month t = month \<and> jt_year t = year) ts"

definition task_view_of :: "task_row \<Rightarrow> task_view" where
  "task_view_of t =
     \<lparr>v_name = t_name t, v_completed = t_completed t, v_completedAt = t_completed_at t\<rparr>"

text \<open>The entry of a user in the status of a period: the user's name and tasks.\<close>

definition status_of :: "int \<Rightarrow> int \<Rightarrow> task_row list \<Rightarrow> user_row \<Rightarrow> user_status" where
  "status_of month year ts u =
     \<lparr>us_username = u_username u,
      us_tasks = map task_view_of (tasks_of (u_username u) month year ts)\<rparr>"

text \<open>An environment without driver errors whose clock stands at \<open>now\<close>.\<close>

definition steady :: "timestamp \<Rightarrow> env" where
  "steady now = \<lparr>driver_err = (\<lambda>k. False), clock = (\<lambda>k. now)\<rparr>"


text \<open>
  The SQLite database after \<^verbatim>\<open>createDefaultUsers\<close> and \<^verbatim>\<open>ensureMonthlyTasks\<close> in January
  2026 (seed 24313: the two chores go to sonu and sachin).
\<close>

definition default_users :: "user_row list" where
  "default_users =
     [\<lparr>u_id = 1, u_username = ''deepanshu'', u_mobile_number = ''7280892805'',
       u_password_hash = ''$2b$10$a''\<rparr>,
      \<lparr>u_id = 2, u_username = ''sonu'', u_mobile_number = ''8210658796'',
       u_password_hash = ''$2b$10$b''\<rparr>,
      \<lparr>u_id = 3, u_username = ''sachin'', u_mobile_number = ''9162130124'',
       u_password_hash = ''$2b$10$c''\<rparr>,
      \<lparr>u_id = 4, u_username = ''sintu'', u_mobile_number = ''9142018096'',
       u_password_hash = ''$2b$10$d''\<rparr>]"

definition fresh_db :: database where
  "fresh_db = \<lparr>users = default_users, tasks = [], task_history = [], monthly_reports = [],
               tasks_seq = 0, task_history_seq = 0, monthly_reports_seq = 0\<rparr>"

definition kachra :: task_row where
  "kachra = \<lparr>t_id = 1, t_name = ''Kachra Fekna'', t_assigned_to = ''sonu'', t_month = 1,
             t_year = 2026, t_completed = False, t_completed_at = None\<rparr>"

definition pani :: task_row where
  "pani = \<lparr>t_id = 2, t_name = ''Pani Lana'', t_assigned_to = ''sachin'', t_month = 1,
           t_year = 2026, t_completed = False, t_completed_at = None\<rparr>"

definition january_db :: database where
  "january_db = fresh_db\<lparr>tasks := [kachra, pani], tasks_seq := 2\<rparr>"

text \<open>
  The JSON-file state after \<^verbatim>\<open>createDefaultUsers\<close> and \<^verbatim>\<open>ensureMonthlyTasks\<close> at
  2026-01-01T00:00:00Z (\<^verbatim>\<open>Date.now()\<close> = 1767225600000), and a clock for later calls.
\<close>

definition jsteady :: "int \<Rightarrow> timestamp \<Rightarrow> jenv" where
  "jsteady ms stamp =
     \<lparr>date_now = (\<lambda>k. ms), math_random = (\<lambda>k. 1 / 2), iso_now = (\<lambda>k. stamp)\<rparr>"

definition default_jusers :: "juser list" where
  "default_jusers =
     [\<lparr>ju_id = 1, ju_username = ''deepanshu'', ju_password_hash = ''$2b$10$a''\<rparr>,
      \<lparr>ju_id = 2, ju_username = ''sonu'', ju_password_hash = ''$2b$10$b''\<rparr>,
      \<lparr>ju_id = 3, ju_username = ''sachin'', ju_password_hash = ''$2b$10$c''\<rparr>,
      \<lparr>ju_id = 4, ju_username = ''sintu'', ju_password_hash = ''$2b$10$d''\<rparr>]"

definition fresh_data :: jdata where
  "fresh_data = \<lparr>j_users = default_jusers, j_tasks = [], j_monthly_reports = []\<rparr>"

definition chore :: "int \<Rightarrow> string \<Rightarrow> string \<Rightarrow> string \<Rightarrow> timestamp option \<Rightarrow> jtask" where
  "chore i name who status done =
     \<lparr>jt_id = 1767225600000 + i, jt_name = name, jt_assigned_to = Some who, jt_month = 1,
      jt_year = 2026, jt_status = status, jt_completed_at = done\<rparr>"

definition january_data :: jdata where
  "january_data =
     fresh_data\<lparr>j_tasks :=
       [chore 0 ''Kitchen Cleaning'' ''sonu'' ''pending'' None,
        chore 1 ''Bathroom Cleaning'' ''sachin'' ''pending'' None,
        chore 2 ''Hall Sweeping'' ''sintu'' ''pending'' None,
        chore 3 ''Trash Removal'' ''deepanshu'' ''pending'' None]\<rparr>"

text \<open>States in which sonu has three chores in January 2026, two of them done.\<close>

definition busy_db :: database where
  "busy_db =
     fresh_db\<lparr>tasks :=
       [kachra\<lparr>t_completed := True, t_completed_at := Some ''2026-01-05 10:00:00''\<rparr>,
        pani\<lparr>t_assigned_to := ''sonu'', t_completed := True,
             t_completed_at := Some ''2026-01-06 09:30:00''\<rparr>,
        \<lparr>t_id = 3, t_name = ''Jhadu Pocha'', t_assigned_to = ''sonu'', t_month = 1,
          t_year = 2026, t_completed = False, t_completed_at = None\<rparr>],
       tasks_seq := 3\<rparr>"

definition busy_data :: jdata where
  "busy_data =
     fresh_data\<lparr>j_tasks :=
       [chore 0 ''Kitchen Cleaning'' ''sonu'' ''completed'' (Some ''2026-01-05T10:00:00.000Z''),
        chore 1 ''Bathroom Cleaning'' ''sonu'' ''completed'' (Some ''2026-01-06T09:30:00.000Z''),
        chore 2 ''Hall Sweeping'' ''sonu'' ''pending'' None]\<rparr>"


text \<open>A users table in which one user name is a property that every object inherits.\<close>

definition constructor_db :: database where
  "constructor_db =
     fresh_db\<lparr>users := default_users @
       [\<lparr>u_id = 5, u_username = ''constructor'', u_mobile_number = ''9000000005'',
         u_password_hash = ''$2b$10$e''\<rparr>]\<rparr>"

section \<open>Properties of the rotation calculator\<close>

text \<open>Up to \<open>2^53\<close> in magnitude an integer is a number: the arithmetic is exact.\<close>

lemma round_half_even_one: "round_half_even x 1 = x"
  by (simp add: round_half_even_def)

lemma nearest_double_exact:
  assumes "\<bar>x\<bar> \<le> 2 ^ 53"
  shows "nearest_double x = Some x"
proof (cases "\<bar>x\<bar> = 2 ^ 53")
  case True
  then consider "x = 2 ^ 53" | "x = - (2 ^ 53)"
    by linarith
  then show ?thesis
    by cases (simp_all add: nearest_double_def round_half_even_def Let_def compute_bitlen)
next
  case False
  with assms have less: "\<bar>x\<bar> < 2 ^ 53"
    by simp
  then have "bitlen \<bar>x\<bar> \<le> 53"
    by (simp add: bitlen_le_iff_power)
  then have sh: "nat (bitlen \<bar>x\<bar> - 53) = 0"
    by simp
  have "\<bar>x\<bar> < (2::int) ^ 1024"
    using less by (rule less_trans) simp
  then show ?thesis
    unfolding nearest_double_def Let_def sh by (simp add: round_half_even_one)
qed

lemma js_times_exact: "\<bar>x * y\<bar> \<le> 2 ^ 53 \<Longrightarrow> js_times (Some x) (Some y) = Some (x * y)"
  by (simp add: js_times_def nearest_double_exact)

lemma js_plus_exact: "\<bar>x + y\<bar> \<le> 2 ^ 53 \<Longrightarrow> js_plus (Some x) (Some y) = Some (x + y)"
  by (simp add: js_plus_def nearest_double_exact)

lemma js_rem_nonneg: "0 \<le> a \<Longrightarrow> 0 < b \<Longrightarrow> js_rem a b = a mod b"
  by (simp add: js_rem_def)

text \<open>
  The index computed for the task at catalogue index \<open>i\<close>, as long as the largest sum
  \<open>seed + i\<close> is a number.
\<close>

lemma roommateIndex_exact:
  assumes m: "0 \<le> month" and y: "0 \<le> year" and b: "year * 12 + month + int i \<le> 2 ^ 53"
  shows "js_element ROOMMATES
           (js_percent (js_plus (js_plus (js_times (Some year) (Some 12)) (Some month))
                          (Some (int i))) 4) =
         Some (ROOMMATES ! (nat (year * 12 + month + int i) mod 4))"
proof -
  have 1: "js_times (Some year) (Some 12) = Some (year * 12)"
    using m y b by (intro js_times_exact) simp
  have 2: "js_plus (Some (year * 12)) (Some month) = Some (year * 12 + month)"
    using m y b by (intro js_plus_exact) simp
  have 3: "js_plus (Some (year * 12 + month)) (Some (int i)) = Some (year * 12 + month + int i)"
    using m y b by (intro js_plus_exact) simp
  have s: "0 \<le> year * 12 + month + int i"
    using m y by simp
  then have r: "js_rem (year * 12 + month + int i) 4 = (year * 12 + month + int i) mod 4"
    by (simp add: js_rem_nonneg)
  have n: "nat ((year * 12 + month + int i) mod 4) = nat (year * 12 + month + int i) mod 4"
    using s by (simp add: nat_mod_distrib)
  have l: "length ROOMMATES = 4"
    by (simp add: ROOMMATES_def)
  show ?thesis
    unfolding 1 2 3 js_percent_def js_element_def js_index_def l using r n by simp
qed

lemma calculateMonthlyAssignments_TASKS:
  assumes m: "0 \<le> month" and y: "0 \<le> year" and b: "year * 12 + month + 3 \<le> 2 ^ 53"
  shows "calculateMonthlyAssignments ROOMMATES TASKS month year =
     map (\<lambda>i. (TASKS ! i, Some (ROOMMATES ! (nat (year * 12 + month + int i) mod 4)))) [0..<4]"
proof -
  have i: "js_element ROOMMATES
           (js_percent (js_plus (js_plus (js_times (Some year) (Some 12)) (Some month))
                          (Some (int i))) 4) =
         Some (ROOMMATES ! (nat (year * 12 + month + int i) mod 4))" if "i \<le> 3" for i
    using that b by (intro roommateIndex_exact [OF m y]) simp
  have l: "int (length ROOMMATES) = 4"
    by (simp add: ROOMMATES_def)
  show ?thesis
    unfolding calculateMonthlyAssignments_def Let_def l
    using i [of 0] i [of 1] i [of 2] i [of 3]
    by (simp add: TASKS_def upt_rec)
qed

lemma calculateMonthlyAssignments_TASKS_sqlite:
  assumes m: "0 \<le> month" and y: "0 \<le> year" and b: "year * 12 + month + 1 \<le> 2 ^ 53"
  shows "calculateMonthlyAssignments ROOMMATES TASKS_sqlite month year =
     map (\<lambda>i. (TASKS_sqlite ! i, Some (ROOMMATES ! (nat (year * 12 + month + int i) mod 4))))
       [0..<2]"
proof -
  have i: "js_element ROOMMATES
           (js_percent (js_plus (js_plus (js_times (Some year) (Some 12)) (Some month))
                          (Some (int i))) 4) =
         Some (ROOMMATES ! (nat (year * 12 + month + int i) mod 4))" if "i \<le> 1" for i
    using that b by (intro roommateIndex_exact [OF m y]) simp
  have l: "int (length ROOMMATES) = 4"
    by (simp add: ROOMMATES_def)
  show ?thesis
    unfolding calculateMonthlyAssignments_def Let_def l
    using i [of 0] i [of 1]
    by (simp add: TASKS_sqlite_def upt_rec)
qed

text \<open>
  Beyond \<open>2^53\<close> the sums are rounded. In month 1 of the year \<open>10^15\<close> the seed
  \<open>12000000000000001\<close> is rounded to \<open>12000000000000000\<close> and \<open>seed + 3\<close> to
  \<open>12000000000000004\<close>: three of the four chores go to deepanshu.
\<close>

lemma calculateMonthlyAssignments_rounded:
  "calculateMonthlyAssignments ROOMMATES TASKS 1 (10 ^ 15) =
     [(''Kitchen Cleaning'', Some ''deepanshu''), (''Bathroom Cleaning'', Some ''deepanshu''),
      (''Hall Sweeping'', Some ''sachin''), (''Trash Removal'', Some ''deepanshu'')]"
  by code_simp


text \<open>
  C3. \<^verbatim>\<open>calculateMonthlyAssignments\<close> reads only its two arguments and the two constants,
  so it is a function of (month, year). For a calendar period (month 1..12, year from 0 on)
  whose sums \<open>seed + i\<close> are numbers (\<open>seed + 3 \<le> 2^53\<close>; the years of a \<^verbatim>\<open>Date\<close> end at
  275760), the task at catalogue index \<open>i\<close> goes to \<open>ROOMMATES[(seed + i) mod 4]\<close> with
  \<open>seed = year*12 + month\<close>, in both servers; for month 1 of 2026 the seed is 24313, index 0
  goes to \<open>ROOMMATES[1]\<close> = sonu and index 1 to \<open>ROOMMATES[2]\<close> = sachin.
\<close>

theorem calculateMonthlyAssignments_rotation:
  assumes "1 \<le> month" and "month \<le> 12" and "0 \<le> year"
    and "year * 12 + month + 3 \<le> 2 ^ 53"
  shows "calculateMonthlyAssignments ROOMMATES TASKS month year =
           map (\<lambda>i. (TASKS ! i, Some (ROOMMATES ! (nat (year * 12 + month + int i) mod 4))))
             [0..<4]
       \<and> calculateMonthlyAssignments ROOMMATES TASKS_sqlite month year =
           map (\<lambda>i. (TASKS_sqlite ! i,
                      Some (ROOMMATES ! (nat (year * 12 + month + int i) mod 4))))
             [0..<2]"
proof -
  from assms have m: "0 \<le> month" and b: "year * 12 + month + 1 \<le> 2 ^ 53"
    by simp_all
  show ?thesis
    using calculateMonthlyAssignments_TASKS [OF m assms(3) assms(4)]
      calculateMonthlyAssignments_TASKS_sqlite [OF m assms(3) b]
    by (rule conjI)
qed

theorem calculateMonthlyAssignments_rotation_witness:
  "(1::int) \<le> 1 \<and> (1::int) \<le> 12 \<and> (0::int) \<le> 2026 \<and> 2026 * 12 + 1 = (24313::int)
   \<and> (2026::int) * 12 + 1 + 3 \<le> 2 ^ 53
   \<and> calculateMonthlyAssignments ROOMMATES TASKS 1 2026 =
       [(''Kitchen Cleaning'', Some ''sonu''), (''Bathroom Cleaning'', Some ''sachin''),
        (''Hall Sweeping'', Some ''sintu''), (''Trash Removal'', Some ''deepanshu'')]
   \<and> calculateMonthlyAssignments ROOMMATES TASKS_sqlite 1 2026 =
       [(''Kachra Fekna'', Some ''sonu''), (''Pani Lana'', Some ''sachin'')]"
  using calculateMonthlyAssignments_rotation [of 1 2026]
  by (simp add: TASKS_def TASKS_sqlite_def ROOMMATES_def upt_rec)

lemma rotation_by_residue:
  assumes s: "0 \<le> s"
  shows "map (\<lambda>i. Some (ROOMMATES ! (nat (s + int i) mod 4))) [0..<4] =
         map (\<lambda>i. Some (ROOMMATES ! ((nat s mod 4 + i) mod 4))) [0..<4]"
proof -
  have "nat (s + int i) mod 4 = (nat s mod 4 + i) mod 4" for i
    using s by (simp add: nat_add_distrib mod_add_left_eq)
  then show ?thesis
    by simp
qed

text \<open>
  C10. In the four-chore server the roster and the catalogue have four entries each and
  the indices are \<open>(seed + 0 .. seed + 3) mod 4\<close>: for every period from month 0 of year 0
  on whose sums \<open>seed + i\<close> are numbers (\<open>seed + 3 \<le> 2^53\<close>, which holds for every period
  of a \<^verbatim>\<open>Date\<close>), the four chores go to four different roommates, each roommate receiving
  exactly one.
\<close>

theorem calculateMonthlyAssignments_each_roommate_once:
  assumes "0 \<le> month" and "0 \<le> year" and "year * 12 + month + 3 \<le> 2 ^ 53"
  shows "map fst (calculateMonthlyAssignments ROOMMATES TASKS month year) = TASKS
       \<and> distinct (map snd (calculateMonthlyAssignments ROOMMATES TASKS month year))
       \<and> mset (map snd (calculateMonthlyAssignments ROOMMATES TASKS month year)) =
           mset (map Some ROOMMATES)"
proof -
  let ?k = "nat (year * 12 + month) mod 4"
  note c = calculateMonthlyAssignments_TASKS [OF assms]
  have s: "0 \<le> year * 12 + month"
    using assms by simp
  have snd: "map snd (calculateMonthlyAssignments ROOMMATES TASKS month year) =
        map (\<lambda>i. Some (ROOMMATES ! ((?k + i) mod 4))) [0..<4]"
    unfolding c using rotation_by_residue [OF s] by (simp add: comp_def)
  have fst: "map fst (calculateMonthlyAssignments ROOMMATES TASKS month year) = TASKS"
    unfolding c by (simp add: TASKS_def upt_rec)
  have "?k < 4" by simp
  then consider "?k = 0" | "?k = 1" | "?k = 2" | "?k = 3"
    by linarith
  then have "distinct (map (\<lambda>i. Some (ROOMMATES ! ((?k + i) mod 4))) [0..<4])
      \<and> mset (map (\<lambda>i. Some (ROOMMATES ! ((?k + i) mod 4))) [0..<4]) = mset (map Some ROOMMATES)"
    by cases (simp_all add: ROOMMATES_def upt_rec)
  with snd fst show ?thesis by simp
qed

theorem calculateMonthlyAssignments_each_roommate_once_witness:
  "(0::int) \<le> 2 \<and> (0::int) \<le> 2026 \<and> (2026::int) * 12 + 2 + 3 \<le> 2 ^ 53
   \<and> calculateMonthlyAssignments ROOMMATES TASKS 2 2026 =
       [(''Kitchen Cleaning'', Some ''sachin''), (''Bathroom Cleaning'', Some ''sintu''),
        (''Hall Sweeping'', Some ''deepanshu''), (''Trash Removal'', Some ''sonu'')]
   \<and> distinct (map snd (calculateMonthlyAssignments ROOMMATES TASKS 2 2026))
   \<and> mset (map snd (calculateMonthlyAssignments ROOMMATES TASKS 2 2026)) =
       mset (map Some ROOMMATES)"
proof -
  have h: "(0::int) \<le> 2" "(0::int) \<le> 2026" "(2026::int) * 12 + 2 + 3 \<le> 2 ^ 53"
    by simp_all
  have v: "calculateMonthlyAssignments ROOMMATES TASKS 2 2026 =
       [(''Kitchen Cleaning'', Some ''sachin''), (''Bathroom Cleaning'', Some ''sintu''),
        (''Hall Sweeping'', Some ''deepanshu''), (''Trash Removal'', Some ''sonu'')]"
    unfolding calculateMonthlyAssignments_TASKS [OF h]
    by (simp add: TASKS_def ROOMMATES_def upt_rec)
  from calculateMonthlyAssignments_each_roommate_once [OF h] h v show ?thesis
    by simp
qed

section \<open>Completing a task\<close>

lemma unique_key_row:
  assumes "distinct (map task_key ts)" and "t \<in> set ts" and "t' \<in> set ts"
    and "task_key t' = task_key t"
  shows "t' = t"
  using assms by (meson distinct_map inj_onD)

lemma no_hit_for_other_user:
  assumes u: "distinct (map task_key ts)" and t: "t \<in> set ts" and b: "t_assigned_to t \<noteq> actor"
    and x: "x \<in> set ts"
  shows "\<not> (t_name x = t_name t \<and> t_month x = t_month t \<and> t_year x = t_year t
            \<and> t_assigned_to x = actor)"
proof
  assume h: "t_name x = t_name t \<and> t_month x = t_month t \<and> t_year x = t_year t
            \<and> t_assigned_to x = actor"
  then have "task_key x = task_key t"
    by (simp add: task_key_def)
  with u t x have "x = t"
    using unique_key_row by blast
  with h b show False
    by simp
qed

text \<open>
  C1 (as amended). In the SQLite store, whose table satisfies
  \<^verbatim>\<open>UNIQUE(name, month, year)\<close>: for every task \<open>t\<close> and every actor other than its assignee,
  \<^verbatim>\<open>completeTask\<close> for \<open>t\<close>'s key with that actor rejects with "Task not found or not assigned
  to you" (with the driver's error if the \<^verbatim>\<open>UPDATE\<close> itself fails) and leaves the whole
  database, so also \<open>t\<close>'s completed flag and timestamp, as it was. In the JSON-file server
  the outcome of the completion route does not depend on who the session's user is.
\<close>

theorem completeTask_other_user_rejected:
  assumes "distinct (map task_key (tasks db))"
    and "t \<in> set (tasks db)"
    and "t_assigned_to t \<noteq> actor"
  shows "completeTask e (t_name t) actor (t_month t) (t_year t) db =
           (Inl (if driver_err e 0 then StoreUnavailable else NotFoundOrNotOwned), db)
       \<and> post_tasks_complete je (Some (uid, actor)) taskId data =
           post_tasks_complete je (Some (uid', t_assigned_to t)) taskId data"
proof -
  let ?hit = "\<lambda>x. t_name x = t_name t \<and> t_month x = t_month t \<and> t_year x = t_year t
                  \<and> t_assigned_to x = actor"
  have none: "\<forall>x \<in> set (tasks db). \<not> ?hit x"
    using no_hit_for_other_user [OF assms] by blast
  then have f: "filter ?hit (tasks db) = []"
    by (simp add: filter_empty_conv)
  have m: "map (\<lambda>x. if ?hit x then x\<lparr>t_completed := True, t_completed_at := Some (clock e 0)\<rparr>
                     else x) (tasks db) = tasks db"
    by (rule map_idI) (use none in auto)
  have "completeTask e (t_name t) actor (t_month t) (t_year t) db =
           (Inl (if driver_err e 0 then StoreUnavailable else NotFoundOrNotOwned), db)"
    unfolding completeTask_def Let_def f m by simp
  moreover have "post_tasks_complete je (Some (uid, actor)) taskId data =
           post_tasks_complete je (Some (uid', t_assigned_to t)) taskId data"
    by (simp add: post_tasks_complete_def)
  ultimately show ?thesis
    by simp
qed

theorem completeTask_other_user_rejected_witness:
  "distinct (map task_key (tasks january_db)) \<and> kachra \<in> set (tasks january_db)
   \<and> t_assigned_to kachra \<noteq> ''sachin''
   \<and> completeTask (steady ''2026-01-05 10:00:00'') ''Kachra Fekna'' ''sachin'' 1 2026 january_db =
       (Inl NotFoundOrNotOwned, january_db)"
proof -
  have u: "distinct (map task_key (tasks january_db))"
    by (simp add: january_db_def kachra_def pani_def task_key_def)
  have t: "kachra \<in> set (tasks january_db)"
    by (simp add: january_db_def)
  have b: "t_assigned_to kachra \<noteq> ''sachin''"
    by (simp add: kachra_def)
  from completeTask_other_user_rejected [OF u t b, of "steady ''2026-01-05 10:00:00''"] u t b
  show ?thesis
    by (simp add: kachra_def steady_def)
qed

text \<open>
  The claim as stated fails in the JSON-file server: deepanshu's session completes the
  chore assigned to sonu.
\<close>

theorem completeTask_json_other_user_succeeds:
  "map jt_assigned_to (j_tasks january_data) =
     [Some ''sonu'', Some ''sachin'', Some ''sintu'', Some ''deepanshu'']
   \<and> post_tasks_complete (jsteady 1767607200000 ''2026-01-05T10:00:00.000Z'')
       (Some (1, ''deepanshu'')) (Some 1767225600000) january_data =
     (Json_success True,
      january_data\<lparr>j_tasks :=
        [chore 0 ''Kitchen Cleaning'' ''sonu'' ''completed'' (Some ''2026-01-05T10:00:00.000Z''),
         chore 1 ''Bathroom Cleaning'' ''sachin'' ''pending'' None,
         chore 2 ''Hall Sweeping'' ''sintu'' ''pending'' None,
         chore 3 ''Trash Removal'' ''deepanshu'' ''pending'' None]\<rparr>)"
  by (simp add: post_tasks_complete_def completeTask_json_def january_data_def chore_def
      jsteady_def)


lemma hit_is_row:
  assumes u: "distinct (map task_key ts)" and t: "t \<in> set ts" and x: "x \<in> set ts"
  shows "(t_name x = t_name t \<and> t_month x = t_month t \<and> t_year x = t_year t
            \<and> t_assigned_to x = t_assigned_to t) = (x = t)"
proof
  assume "t_name x = t_name t \<and> t_month x = t_month t \<and> t_year x = t_year t
            \<and> t_assigned_to x = t_assigned_to t"
  then have "task_key x = task_key t"
    by (simp add: task_key_def)
  with u t x show "x = t"
    using unique_key_row by blast
next
  assume "x = t"
  then show "t_name x = t_name t \<and> t_month x = t_month t \<and> t_year x = t_year t
            \<and> t_assigned_to x = t_assigned_to t"
    by simp
qed

lemma find_key_after_stamp:
  assumes "t \<in> set ts"
  shows "find (\<lambda>x. t_name x = t_name t \<and> t_month x = t_month t \<and> t_year x = t_year t)
           (map (\<lambda>x. if P x then x\<lparr>t_completed := c, t_completed_at := a\<rparr> else x) ts) \<noteq> None"
proof -
  let ?f = "\<lambda>x. if P x then x\<lparr>t_completed := c, t_completed_at := a\<rparr> else x"
  have "?f t \<in> set (map ?f ts)"
    using assms by (rule imageI [of t "set ts" ?f, simplified set_map [symmetric]])
  moreover have "t_name (?f t) = t_name t \<and> t_month (?f t) = t_month t \<and> t_year (?f t) = t_year t"
    by simp
  ultimately show ?thesis
    unfolding find_None_iff by blast
qed

text \<open>A successful completion: what \<^verbatim>\<open>completeTask\<close> does for the assignee.\<close>

lemma completeTask_by_assignee:
  assumes u: "distinct (map task_key (tasks db))" and t: "t \<in> set (tasks db)"
    and ok: "\<not> driver_err e 0" "\<not> driver_err e 1" "\<not> driver_err e 2"
  shows "fst (completeTask e (t_name t) (t_assigned_to t) (t_month t) (t_year t) db) = Inr ()"
    and "tasks (snd (completeTask e (t_name t) (t_assigned_to t) (t_month t) (t_year t) db)) =
          map (\<lambda>x. if x = t then t\<lparr>t_completed := True, t_completed_at := Some (clock e 0)\<rparr>
                    else x) (tasks db)"
    and "length (task_history (snd (completeTask e (t_name t) (t_assigned_to t) (t_month t)
            (t_year t) db))) = Suc (length (task_history db))"
proof -
  let ?hit = "\<lambda>x. t_name x = t_name t \<and> t_month x = t_month t \<and> t_year x = t_year t
                  \<and> t_assigned_to x = t_assigned_to t"
  let ?st = "\<lambda>x. if ?hit x then x\<lparr>t_completed := True, t_completed_at := Some (clock e 0)\<rparr>
                   else x"
  have "filter ?hit (tasks db) \<noteq> []"
    using t by (auto simp: filter_empty_conv)
  then have len: "length (filter ?hit (tasks db)) \<noteq> 0"
    by simp
  have m: "map ?st (tasks db) =
           map (\<lambda>x. if x = t then t\<lparr>t_completed := True, t_completed_at := Some (clock e 0)\<rparr>
                     else x) (tasks db)"
    by (rule map_cong [OF refl]) (use hit_is_row [OF u t] in auto)
  obtain task where f: "find (\<lambda>x. t_name x = t_name t \<and> t_month x = t_month t
                                 \<and> t_year x = t_year t) (map ?st (tasks db)) = Some task"
    using find_key_after_stamp [OF t, where P = ?hit and c = True and a = "Some (clock e 0)"]
    by blast
  have c: "completeTask e (t_name t) (t_assigned_to t) (t_month t) (t_year t) db =
       (Inr (),
        db\<lparr>tasks := map ?st (tasks db),
           task_history := task_history db @
             [\<lparr>h_id = Suc (task_history_seq db), h_task_id = t_id task,
               h_username = t_assigned_to t, h_action = ''completed'',
               h_timestamp = clock e 2\<rparr>],
           task_history_seq := Suc (task_history_seq db)\<rparr>)"
    unfolding completeTask_def Let_def using ok len f by simp
  show "fst (completeTask e (t_name t) (t_assigned_to t) (t_month t) (t_year t) db) = Inr ()"
    unfolding c by simp
  show "tasks (snd (completeTask e (t_name t) (t_assigned_to t) (t_month t) (t_year t) db)) =
          map (\<lambda>x. if x = t then t\<lparr>t_completed := True, t_completed_at := Some (clock e 0)\<rparr>
                    else x) (tasks db)"
    unfolding c using m by simp
  show "length (task_history (snd (completeTask e (t_name t) (t_assigned_to t) (t_month t)
            (t_year t) db))) = Suc (length (task_history db))"
    unfolding c by simp
qed


lemma stamp_row_keeps_keys:
  "map task_key (map (\<lambda>x. if x = t then t\<lparr>t_completed := c, t_completed_at := a\<rparr> else x) ts) =
   map task_key ts"
  by (induction ts) (simp_all add: task_key_def)

text \<open>
  \<^verbatim>\<open>find\<close> returns the first task that carries the id, and that task is the one changed.
\<close>

lemma update_first_index:
  assumes "i < length xs" and "P (xs ! i)" and "\<And>x. x \<in> set (take i xs) \<Longrightarrow> \<not> P x"
  shows "update_first P f xs = xs[i := f (xs ! i)] \<and> find P xs = Some (xs ! i)"
  using assms
proof (induction xs arbitrary: i)
  case Nil
  then show ?case by simp
next
  case (Cons x xs)
  show ?case
  proof (cases i)
    case 0
    with Cons.prems show ?thesis by simp
  next
    case (Suc k)
    with Cons.prems have x: "\<not> P x" and k: "k < length xs" "P (xs ! k)"
      and rest: "\<And>z. z \<in> set (take k xs) \<Longrightarrow> \<not> P z"
      by simp_all
    from Cons.IH [OF k rest] show ?thesis
      using x Suc by simp
  qed
qed

lemma completeTask_json_index:
  assumes i: "i < length (j_tasks data)"
    and first: "jt_id (j_tasks data ! i) \<notin> jt_id ` set (take i (j_tasks data))"
  shows "completeTask_json je (Some (jt_id (j_tasks data ! i))) data =
     (True, data\<lparr>j_tasks := (j_tasks data)
        [i := (j_tasks data ! i)\<lparr>jt_status := ''completed'',
                                 jt_completed_at := Some (iso_now je 0)\<rparr>]\<rparr>)"
proof -
  let ?P = "\<lambda>t. jt_id t = jt_id (j_tasks data ! i)"
  have none: "\<not> ?P x" if "x \<in> set (take i (j_tasks data))" for x
  proof
    assume "jt_id x = jt_id (j_tasks data ! i)"
    then have "jt_id (j_tasks data ! i) \<in> jt_id ` set (take i (j_tasks data))"
      using that by (metis imageI)
    with first show False ..
  qed
  have "?P (j_tasks data ! i)"
    by simp
  from update_first_index [of i "j_tasks data" ?P, OF i this none]
  show ?thesis
    by (simp add: completeTask_json_def)
qed

text \<open>
  C2 (as amended). Completing a task as its assignee succeeds, sets the completed flag and
  stamps the time of the call. Nothing in either store looks at the flag: a second call by
  the assignee succeeds again, leaves the flag set, and overwrites the completion
  timestamp with the time of the second call; in the SQLite store it also appends a
  second history row. In the JSON-file store the task is named by its id, and it is the
  task completed when no earlier task of the file carries the same id; each of the two
  calls returns \<^verbatim>\<open>true\<close> and leaves the file as it was but for that task, which is
  completed and carries the time of that call.
\<close>

theorem completeTask_twice_overwrites:
  assumes u: "distinct (map task_key (tasks db))" and t: "t \<in> set (tasks db)"
    and ok1: "\<not> driver_err e1 0 \<and> \<not> driver_err e1 1 \<and> \<not> driver_err e1 2"
    and ok2: "\<not> driver_err e2 0 \<and> \<not> driver_err e2 1 \<and> \<not> driver_err e2 2"
    and i: "i < length (j_tasks data)"
    and only: "jt_id (j_tasks data ! i) \<notin> jt_id ` set (take i (j_tasks data))"
  shows "(let first = completeTask e1 (t_name t) (t_assigned_to t) (t_month t) (t_year t) db;
              second = completeTask e2 (t_name t) (t_assigned_to t) (t_month t) (t_year t)
                         (snd first)
          in fst first = Inr ()
           \<and> tasks (snd first) =
               map (\<lambda>x. if x = t
                         then t\<lparr>t_completed := True, t_completed_at := Some (clock e1 0)\<rparr>
                         else x) (tasks db)
           \<and> fst second = Inr ()
           \<and> tasks (snd second) =
               map (\<lambda>x. if x = t
                         then t\<lparr>t_completed := True, t_completed_at := Some (clock e2 0)\<rparr>
                         else x) (tasks db)
           \<and> length (task_history (snd second)) = length (task_history db) + 2)
       \<and> (let jt = j_tasks data ! i;
              first = completeTask_json je1 (Some (jt_id jt)) data;
              second = completeTask_json je2 (Some (jt_id jt)) (snd first)
          in first =
               (True, data\<lparr>j_tasks := (j_tasks data)
                  [i := jt\<lparr>jt_status := ''completed'',
                           jt_completed_at := Some (iso_now je1 0)\<rparr>]\<rparr>)
           \<and> second =
               (True, data\<lparr>j_tasks := (j_tasks data)
                  [i := jt\<lparr>jt_status := ''completed'',
                           jt_completed_at := Some (iso_now je2 0)\<rparr>]\<rparr>))"
proof -
  let ?t1 = "t\<lparr>t_completed := True, t_completed_at := Some (clock e1 0)\<rparr>"
  let ?s1 = "\<lambda>x. if x = t then ?t1 else x"
  let ?first = "completeTask e1 (t_name t) (t_assigned_to t) (t_month t) (t_year t) db"
  let ?db1 = "snd ?first"
  let ?second = "completeTask e2 (t_name t) (t_assigned_to t) (t_month t) (t_year t) ?db1"
  note a = completeTask_by_assignee [OF u t, of e1, simplified ok1, simplified]
  have t1: "tasks ?db1 = map ?s1 (tasks db)"
    using a(2) .
  have k1: "map task_key (tasks ?db1) = map task_key (tasks db)"
    unfolding t1 by (rule stamp_row_keeps_keys)
  have u1: "distinct (map task_key (tasks ?db1))"
    using u k1 by simp
  have in1: "?t1 \<in> set (tasks ?db1)"
    unfolding t1 using t by force
  note b = completeTask_by_assignee [OF u1 in1, of e2, simplified ok2, simplified]
  have other: "x \<noteq> ?t1" if "x \<in> set (tasks db)" "x \<noteq> t" for x
  proof
    assume "x = ?t1"
    then have "task_key x = task_key t"
      by (simp add: task_key_def)
    with u t that show False
      using unique_key_row by blast
  qed
  have t2: "tasks (snd ?second) =
      map (\<lambda>x. if x = t then t\<lparr>t_completed := True, t_completed_at := Some (clock e2 0)\<rparr>
                else x) (tasks db)"
    unfolding b(2) t1 map_map by (rule map_cong [OF refl]) (use other in auto)
  have h2: "length (task_history (snd ?second)) = length (task_history db) + 2"
    using a(3) b(3) by simp
  let ?jt = "j_tasks data ! i"
  let ?g = "\<lambda>a. ?jt\<lparr>jt_status := ''completed'', jt_completed_at := Some a\<rparr>"
  let ?d1 = "data\<lparr>j_tasks := (j_tasks data)[i := ?g (iso_now je1 0)]\<rparr>"
  have j1: "completeTask_json je1 (Some (jt_id ?jt)) data = (True, ?d1)"
    using i only by (rule completeTask_json_index)
  have i1: "i < length (j_tasks ?d1)"
    using i by simp
  have same: "j_tasks ?d1 ! i = ?g (iso_now je1 0)"
    using i by simp
  have only1: "jt_id (j_tasks ?d1 ! i) \<notin> jt_id ` set (take i (j_tasks ?d1))"
    unfolding same using only by simp
  have j2: "completeTask_json je2 (Some (jt_id ?jt)) ?d1 =
      (True, data\<lparr>j_tasks := (j_tasks data)[i := ?g (iso_now je2 0)]\<rparr>)"
    using completeTask_json_index [OF i1 only1, of je2] unfolding same by simp
  have json: "completeTask_json je1 (Some (jt_id ?jt)) data = (True, ?d1)
      \<and> completeTask_json je2 (Some (jt_id ?jt))
          (snd (completeTask_json je1 (Some (jt_id ?jt)) data)) =
        (True, data\<lparr>j_tasks := (j_tasks data)[i := ?g (iso_now je2 0)]\<rparr>)"
    unfolding j1 snd_conv using j2 by simp
  have sql: "fst ?first = Inr () \<and> tasks ?db1 = map ?s1 (tasks db) \<and> fst ?second = Inr ()
      \<and> tasks (snd ?second) =
          map (\<lambda>x. if x = t then t\<lparr>t_completed := True, t_completed_at := Some (clock e2 0)\<rparr>
                    else x) (tasks db)
      \<and> length (task_history (snd ?second)) = length (task_history db) + 2"
    using a(1) t1 b(1) t2 h2 by (intro conjI)
  show ?thesis
    unfolding Let_def using sql json by (rule conjI)
qed

theorem completeTask_twice_overwrites_witness:
  "distinct (map task_key (tasks january_db)) \<and> kachra \<in> set (tasks january_db)
   \<and> 1 < length (j_tasks january_data)
   \<and> map jt_id (take 1 (j_tasks january_data)) = [1767225600000]
   \<and> jt_id (j_tasks january_data ! 1) = 1767225600001
   \<and> fst (completeTask (steady ''2026-01-06 09:30:00'') ''Kachra Fekna'' ''sonu'' 1 2026
         (snd (completeTask (steady ''2026-01-05 10:00:00'') ''Kachra Fekna'' ''sonu'' 1 2026
                 january_db))) = Inr ()
   \<and> completeTask_json (jsteady 1767607200000 ''2026-01-05T10:00:00.000Z'')
       (Some 1767225600001) january_data =
     (True,
      january_data\<lparr>j_tasks :=
        [chore 0 ''Kitchen Cleaning'' ''sonu'' ''pending'' None,
         chore 1 ''Bathroom Cleaning'' ''sachin'' ''completed'' (Some ''2026-01-05T10:00:00.000Z''),
         chore 2 ''Hall Sweeping'' ''sintu'' ''pending'' None,
         chore 3 ''Trash Removal'' ''deepanshu'' ''pending'' None]\<rparr>)
   \<and> completeTask_json (jsteady 1767691800000 ''2026-01-06T09:30:00.000Z'')
       (Some 1767225600001)
       (snd (completeTask_json (jsteady 1767607200000 ''2026-01-05T10:00:00.000Z'')
               (Some 1767225600001) january_data)) =
     (True,
      january_data\<lparr>j_tasks :=
        [chore 0 ''Kitchen Cleaning'' ''sonu'' ''pending'' None,
         chore 1 ''Bathroom Cleaning'' ''sachin'' ''completed'' (Some ''2026-01-06T09:30:00.000Z''),
         chore 2 ''Hall Sweeping'' ''sintu'' ''pending'' None,
         chore 3 ''Trash Removal'' ''deepanshu'' ''pending'' None]\<rparr>)"
proof -
  have u: "distinct (map task_key (tasks january_db))"
    by (simp add: january_db_def kachra_def pani_def task_key_def)
  have t: "kachra \<in> set (tasks january_db)"
    by (simp add: january_db_def)
  have ok: "\<not> driver_err (steady now) 0 \<and> \<not> driver_err (steady now) 1
            \<and> \<not> driver_err (steady now) 2" for now
    by (simp add: steady_def)
  have i: "1 < length (j_tasks january_data)"
    by (simp add: january_data_def)
  have ids: "map jt_id (take 1 (j_tasks january_data)) = [1767225600000]"
    "jt_id (j_tasks january_data ! 1) = 1767225600001"
    by (simp_all add: january_data_def chore_def)
  have only: "jt_id (j_tasks january_data ! 1) \<notin> jt_id ` set (take 1 (j_tasks january_data))"
    using ids unfolding set_map [symmetric] by simp
  have k: "t_name kachra = ''Kachra Fekna''" "t_assigned_to kachra = ''sonu''"
    "t_month kachra = 1" "t_year kachra = 2026"
    by (simp_all add: kachra_def)
  have stamped: "(j_tasks january_data)
      [1 := (j_tasks january_data ! 1)\<lparr>jt_status := ''completed'', jt_completed_at := Some a\<rparr>] =
      [chore 0 ''Kitchen Cleaning'' ''sonu'' ''pending'' None,
       chore 1 ''Bathroom Cleaning'' ''sachin'' ''completed'' (Some a),
       chore 2 ''Hall Sweeping'' ''sintu'' ''pending'' None,
       chore 3 ''Trash Removal'' ''deepanshu'' ''pending'' None]" for a
    by (simp add: january_data_def chore_def)
  have now: "iso_now (jsteady ms a) 0 = a" for ms a
    by (simp add: jsteady_def)
  note r = completeTask_twice_overwrites [OF u t ok ok i only,
      of "''2026-01-05 10:00:00''" "''2026-01-06 09:30:00''"
         "jsteady 1767607200000 ''2026-01-05T10:00:00.000Z''"
         "jsteady 1767691800000 ''2026-01-06T09:30:00.000Z''",
      unfolded Let_def k ids(2) stamped now]
  have sql: "fst (completeTask (steady ''2026-01-06 09:30:00'') ''Kachra Fekna'' ''sonu'' 1 2026
         (snd (completeTask (steady ''2026-01-05 10:00:00'') ''Kachra Fekna'' ''sonu'' 1 2026
                 january_db))) = Inr ()"
    using r by (rule conjunct1 [OF conjunct2 [OF conjunct2 [OF conjunct1]]])
  show ?thesis
    by (intro conjI u t i ids sql r [THEN conjunct2, THEN conjunct1]
        r [THEN conjunct2, THEN conjunct2])
qed

text \<open>
  The claim as stated fails in both stores: the second call succeeds and replaces the
  timestamp of 5 January by that of 6 January.
\<close>

theorem completeTask_second_call_restamps:
  "fst (completeTask (steady ''2026-01-05 10:00:00'') ''Kachra Fekna'' ''sonu'' 1 2026
          january_db) = Inr ()
   \<and> map t_completed_at
       (tasks (snd (completeTask (steady ''2026-01-05 10:00:00'') ''Kachra Fekna'' ''sonu'' 1 2026
                      january_db))) = [Some ''2026-01-05 10:00:00'', None]
   \<and> fst (completeTask (steady ''2026-01-06 09:30:00'') ''Kachra Fekna'' ''sonu'' 1 2026
         (snd (completeTask (steady ''2026-01-05 10:00:00'') ''Kachra Fekna'' ''sonu'' 1 2026
                 january_db))) = Inr ()
   \<and> map t_completed_at
       (tasks (snd (completeTask (steady ''2026-01-06 09:30:00'') ''Kachra Fekna'' ''sonu'' 1 2026
         (snd (completeTask (steady ''2026-01-05 10:00:00'') ''Kachra Fekna'' ''sonu'' 1 2026
                 january_db))))) = [Some ''2026-01-06 09:30:00'', None]
   \<and> map h_id
       (task_history (snd (completeTask (steady ''2026-01-06 09:30:00'') ''Kachra Fekna'' ''sonu'' 1 2026
         (snd (completeTask (steady ''2026-01-05 10:00:00'') ''Kachra Fekna'' ''sonu'' 1 2026
                 january_db))))) = [1, 2]
   \<and> map jt_completed_at
       (j_tasks (snd (completeTask_json (jsteady 1767691800000 ''2026-01-06T09:30:00.000Z'')
         (Some 1767225600000)
         (snd (completeTask_json (jsteady 1767607200000 ''2026-01-05T10:00:00.000Z'')
                 (Some 1767225600000) january_data))))) =
       [Some ''2026-01-06T09:30:00.000Z'', None, None, None]"
  by (simp add: completeTask_def completeTask_json_def january_db_def fresh_db_def kachra_def
      pani_def january_data_def fresh_data_def chore_def steady_def jsteady_def Let_def)


section \<open>Monthly reports\<close>

subsection \<open>What one call computes and stores\<close>

lemma generateMonthlyReport_result:
  "fst (generateMonthlyReport e userId username month year db) =
     (if driver_err e 0 \<or> driver_err e 1 then Inl StoreUnavailable
      else Inr \<lparr>rp_userId = userId, rp_username = username, rp_month = month, rp_year = year,
                rp_tasksAssigned = length (tasks_of username month year (tasks db)),
                rp_tasksCompleted =
                  length (filter t_completed (tasks_of username month year (tasks db))),
                rp_completionPercentage =
                  completionPercentage
                    (length (filter t_completed (tasks_of username month year (tasks db))))
                    (length (tasks_of username month year (tasks db))),
                rp_reportData =
                  (map task_view_of (tasks_of username month year (tasks db)), clock e 0)\<rparr>)"
  by (simp add: generateMonthlyReport_def Let_def tasks_of_def task_view_of_def)

lemma generateMonthlyReport_tasks:
  "tasks (snd (generateMonthlyReport e userId username month year db)) = tasks db"
  "users (snd (generateMonthlyReport e userId username month year db)) = users db"
  by (simp_all add: generateMonthlyReport_def Let_def)

lemma generateMonthlyReport_rows:
  assumes "\<not> driver_err e 0" and "\<not> driver_err e 1"
  shows "monthly_reports (snd (generateMonthlyReport e userId username month year db)) =
     filter (\<lambda>r. report_key r \<noteq> (userId, month, year)) (monthly_reports db) @
     [\<lparr>r_id = Suc (monthly_reports_seq db), r_user_id = userId, r_username = username,
       r_month = month, r_year = year,
       r_tasks_assigned = length (tasks_of username month year (tasks db)),
       r_tasks_completed =
         length (filter t_completed (tasks_of username month year (tasks db))),
       r_completion_percentage =
         completionPercentage
           (length (filter t_completed (tasks_of username month year (tasks db))))
           (length (tasks_of username month year (tasks db))),
       r_report_data =
         (map task_view_of (tasks_of username month year (tasks db)), clock e 0),
       r_created_at = clock e 1\<rparr>]"
  using assms
  by (simp add: generateMonthlyReport_def Let_def tasks_of_def task_view_of_def report_key_def)


subsection \<open>The percentage in binary64 arithmetic\<close>

lemma round_half_even_error:
  assumes "0 < D"
  shows "\<bar>rat_of_int (round_half_even N D) - of_int N / of_int D\<bar> \<le> 1 / 2"
proof -
  define q where "q = N div D"
  define r where "r = N mod D"
  have N: "N = q * D + r"
    by (simp add: q_def r_def)
  have r: "0 \<le> r" "r < D"
    using assms by (simp_all add: r_def)
  have frac: "rat_of_int N / of_int D = of_int q + of_int r / of_int D"
    using assms by (simp add: N field_simps)
  show ?thesis
  proof (cases "D < 2 * r \<or> (2 * r = D \<and> odd q)")
    case True
    then have v: "round_half_even N D = q + 1"
      by (simp add: round_half_even_def q_def r_def Let_def)
    from True have "D \<le> 2 * r" by auto
    then have "rat_of_int D \<le> 2 * of_int r"
      by (metis of_int_le_iff of_int_mult of_int_numeral)
    then have "1 / 2 \<le> rat_of_int r / of_int D"
      using assms by (simp add: field_simps)
    moreover have "rat_of_int r / of_int D < 1"
      using assms r by simp
    ultimately show ?thesis
      unfolding v frac by simp
  next
    case False
    then have v: "round_half_even N D = q"
      by (simp add: round_half_even_def q_def r_def Let_def)
    from False have "2 * r \<le> D" by auto
    then have "2 * rat_of_int r \<le> of_int D"
      by (metis of_int_le_iff of_int_mult of_int_numeral)
    then have "rat_of_int r / of_int D \<le> 1 / 2"
      using assms by (simp add: field_simps)
    moreover have "0 \<le> rat_of_int r / of_int D"
      using assms r by simp
    ultimately show ?thesis
      unfolding v frac by simp
  qed
qed

lemma Math_round_floor: "Math_round x = \<lfloor>js_val x + 1 / 2\<rfloor>"
proof (cases "0 \<le> snd x")
  case True
  define k where "k = fst x * 2 ^ nat (snd x)"
  have "js_val x = rat_of_int k"
    using True by (simp add: js_val_def power_int_def k_def)
  moreover have "\<lfloor>rat_of_int k + 1 / 2\<rfloor> = k"
    by (rule floor_unique) simp_all
  ultimately have "\<lfloor>js_val x + 1 / 2\<rfloor> = k"
    by simp
  with True show ?thesis
    by (simp add: Math_round_def k_def)
next
  case False
  define k where "k = nat (- snd x)"
  have e: "snd x = - int k"
    using False by (simp add: k_def)
  have p: "(2::rat) powi (- int k) = 1 / 2 ^ k"
    by (simp add: power_int_minus field_simps)
  have "js_val x + 1 / 2 = rat_of_int (2 * fst x + 2 ^ k) / rat_of_int (2 ^ (k + 1))"
    unfolding js_val_def e p by (simp add: field_simps)
  then have "\<lfloor>js_val x + 1 / 2\<rfloor> = (2 * fst x + 2 ^ k) div 2 ^ (k + 1)"
    by (simp only: floor_divide_of_int_eq)
  with False show ?thesis
    by (simp add: Math_round_def k_def)
qed

lemma bitlen_powi_bounds:
  assumes "0 < n"
  shows "(2::rat) powi (bitlen n - 1) \<le> of_int n" and "rat_of_int n < 2 powi (bitlen n)"
proof -
  have b: "1 \<le> bitlen n"
    using assms bitlen_eq_zero_iff [of n] bitlen_nonneg [of n] by linarith
  from bitlen_bounds [OF assms] have i: "2 ^ nat (bitlen n - 1) \<le> n" "n < 2 ^ nat (bitlen n)"
    by simp_all
  have "rat_of_int (2 ^ nat (bitlen n - 1)) \<le> of_int n"
    using i(1) by (simp only: of_int_le_iff)
  then show "(2::rat) powi (bitlen n - 1) \<le> of_int n"
    using b by (simp add: power_int_def)
  have "rat_of_int n < of_int (2 ^ nat (bitlen n))"
    using i(2) by (simp only: of_int_less_iff)
  then show "rat_of_int n < 2 powi (bitlen n)"
    using b by (simp add: power_int_def)
qed

lemma powi_two_pos: "0 < (2::rat) powi k"
  by (simp add: zero_less_power_int)

lemma scale_le:
  fixes a b x y :: rat
  assumes "0 < a" and "a * b = 1"
  shows "(x \<le> y * b) = (x * a \<le> y)"
proof -
  have "y * b * a = y * (a * b)"
    by (simp only: ac_simps)
  then have e: "y * b * a = y"
    by (simp only: assms(2) mult_1_right)
  have s: "(x \<le> y * b) = (x * a \<le> y * b * a)"
    using assms(1) by simp
  show ?thesis
    unfolding s e ..
qed

lemma quotient_exponent_test:
  assumes "0 < n" "0 < d"
  shows "(if 0 \<le> k then d * 2 ^ nat k \<le> n else d \<le> n * 2 ^ nat (- k)) =
         ((2::rat) powi k \<le> of_int n / of_int d)"
proof (cases "0 \<le> k")
  case True
  have "(d * 2 ^ nat k \<le> n) = (rat_of_int (d * 2 ^ nat k) \<le> of_int n)"
    by (simp only: of_int_le_iff)
  also have "\<dots> = (of_int d * (2::rat) powi k \<le> of_int n)"
    using True by (simp add: power_int_def)
  also have "\<dots> = ((2::rat) powi k \<le> of_int n / of_int d)"
    using assms by (simp add: field_simps)
  finally show ?thesis
    using True by simp
next
  case False
  have inv: "(2::rat) powi k * 2 ^ nat (- k) = 1"
    using False by (simp add: power_int_def field_simps)
  have "(d \<le> n * 2 ^ nat (- k)) = (rat_of_int d \<le> of_int (n * 2 ^ nat (- k)))"
    by (simp only: of_int_le_iff)
  also have "\<dots> = (rat_of_int d \<le> of_int n * 2 ^ nat (- k))"
    by simp
  also have "\<dots> = (rat_of_int d * 2 powi k \<le> of_int n)"
    using powi_two_pos [of k] inv by (rule scale_le)
  also have "\<dots> = ((2::rat) powi k \<le> of_int n / of_int d)"
    using assms by (simp add: field_simps)
  finally show ?thesis
    using False by simp
qed

lemma quotient_exponent_bounds:
  assumes n: "0 < n" and d: "0 < d"
  shows "(2::rat) powi (quotient_exponent n d) \<le> of_int n / of_int d"
    and "rat_of_int n / of_int d < 2 powi (quotient_exponent n d + 1)"
proof -
  define k where "k = bitlen n - bitlen d"
  define x where "x = rat_of_int n / of_int d"
  have dpos: "0 < rat_of_int d" and npos: "0 < rat_of_int n"
    using n d by simp_all
  have qe: "quotient_exponent n d = (if (2::rat) powi k \<le> x then k else k - 1)"
    unfolding quotient_exponent_def Let_def k_def [symmetric] x_def
    by (simp only: quotient_exponent_test [OF n d])
  have "x < 2 powi (bitlen n) / 2 powi (bitlen d - 1)"
  proof -
    have "x \<le> of_int n / 2 powi (bitlen d - 1)"
      unfolding x_def using bitlen_powi_bounds(1) [OF d] npos powi_two_pos [of "bitlen d - 1"]
      by (simp add: frac_le)
    also have "\<dots> < 2 powi (bitlen n) / 2 powi (bitlen d - 1)"
      using bitlen_powi_bounds(2) [OF n] powi_two_pos [of "bitlen d - 1"]
      by (simp add: divide_strict_right_mono)
    finally show ?thesis .
  qed
  also have "\<dots> = 2 powi (k + 1)"
    by (simp add: k_def power_int_diff [symmetric] algebra_simps)
  finally have up: "x < 2 powi (k + 1)" .
  have "(2::rat) powi (k - 1) = 2 powi (bitlen n - 1) / 2 powi (bitlen d)"
    by (simp add: k_def power_int_diff [symmetric] algebra_simps)
  also have "\<dots> \<le> of_int n / 2 powi (bitlen d)"
    using bitlen_powi_bounds(1) [OF n] powi_two_pos [of "bitlen d"]
    by (simp add: divide_right_mono)
  also have "\<dots> < x"
    unfolding x_def using bitlen_powi_bounds(2) [OF d] npos dpos
    by (simp add: divide_strict_left_mono)
  finally have low: "(2::rat) powi (k - 1) < x" .
  show "(2::rat) powi (quotient_exponent n d) \<le> of_int n / of_int d"
    unfolding qe x_def [symmetric] using low by simp
  show "rat_of_int n / of_int d < 2 powi (quotient_exponent n d + 1)"
    unfolding qe x_def [symmetric] using up by simp
qed

lemma round_to_double_error:
  assumes n: "0 < n" and d: "0 < d"
  shows "\<bar>js_val (round_to_double n d) - of_int n / of_int d\<bar> \<le> (of_int n / of_int d) / 2 ^ 53"
proof -
  define ex where "ex = quotient_exponent n d"
  define sh where "sh = 52 - ex"
  define x where "x = rat_of_int n / of_int d"
  define N where "N = (if 0 \<le> sh then n * 2 ^ nat sh else n)"
  define D where "D = (if 0 \<le> sh then d else d * 2 ^ nat (- sh))"
  define m where "m = round_half_even N D"
  have Dpos: "0 < D"
    using d by (simp add: D_def)
  have scaled: "rat_of_int N / of_int D = x * 2 powi sh"
  proof (cases "0 \<le> sh")
    case True
    then show ?thesis
      by (simp add: N_def D_def x_def power_int_def)
  next
    case False
    then show ?thesis
      by (simp add: N_def D_def x_def power_int_def field_simps)
  qed
  have rd: "round_to_double n d = (m, - sh)"
    using n by (simp add: round_to_double_def Let_def sh_def ex_def m_def N_def D_def)
  have unscale: "(2::rat) powi sh * 2 powi (- sh) = 1"
    by (simp add: power_int_minus)
  have "js_val (round_to_double n d) - x = (rat_of_int m - x * 2 powi sh) * 2 powi (- sh)"
  proof -
    have "x * 2 powi sh * 2 powi (- sh) = x"
      using unscale by (simp only: mult.assoc mult_1_right)
    then show ?thesis
      unfolding rd js_val_def by (simp add: algebra_simps)
  qed
  then have "\<bar>js_val (round_to_double n d) - x\<bar> =
      \<bar>rat_of_int m - of_int N / of_int D\<bar> * 2 powi (- sh)"
    using powi_two_pos [of "- sh"] by (simp add: scaled abs_mult)
  also have "\<dots> \<le> 1 / 2 * 2 powi (- sh)"
    using round_half_even_error [OF Dpos, of N] powi_two_pos [of "- sh"]
    unfolding m_def by (simp only: mult_le_cancel_right_pos)
  also have "\<dots> = 2 powi ex / 2 ^ 53"
  proof -
    have "(2::rat) powi (- sh) = 2 powi ex / 2 powi 52"
      by (simp add: sh_def power_int_diff)
    then show ?thesis
      by simp
  qed
  also have "\<dots> \<le> x / 2 ^ 53"
    using quotient_exponent_bounds(1) [OF n d]
    unfolding ex_def x_def by (simp add: divide_right_mono)
  finally show ?thesis
    unfolding x_def .
qed

lemma js_div_of_nat: "js_val (js_div (js_of_nat c) (js_of_nat a)) = js_val (round_to_double (int c) (int a))"
  by (simp add: js_div_def js_of_nat_def js_val_def split: prod.split)

lemma js_mul_hundred:
  "js_val (js_mul x (js_of_nat 100)) = js_val (round_to_double (fst x * 100) 1) * 2 powi (snd x)"
proof -
  obtain m e where r: "round_to_double (fst x * 100) 1 = (m, e)"
    by (cases "round_to_double (fst x * 100) 1")
  have "(2::rat) powi (e + snd x) = 2 powi e * 2 powi (snd x)"
    by (simp add: power_int_add)
  then show ?thesis
    by (simp add: js_mul_def js_of_nat_def js_val_def r)
qed

lemma completionRate_zero: "0 < a \<Longrightarrow> completionRate 0 a = (0, 0)"
  by (simp add: completionRate_def js_div_def js_mul_def js_of_nat_def round_to_double_def)

text \<open>The double \<^verbatim>\<open>(c / a) * 100\<close> is within \<open>2^-45\<close> of the exact \<open>100 c / a\<close>.\<close>

lemma completionRate_error:
  assumes c: "0 < c" and ca: "c \<le> a"
  shows "\<bar>js_val (completionRate c a) - 100 * of_nat c / of_nat a\<bar> < 1 / 2 ^ 45"
    and "0 \<le> js_val (completionRate c a)"
proof -
  define x where "x = rat_of_nat c / of_nat a"
  define u where "u = (1::rat) / 2 ^ 53"
  define qq where "qq = js_div (js_of_nat c) (js_of_nat a)"
  define q where "q = js_val qq"
  define p where "p = js_val (completionRate c a)"
  have a: "0 < a"
    using c ca by simp
  have x: "0 < x" "x \<le> 1"
    using c ca a by (simp_all add: x_def)
  have upos: "0 < u" by (simp add: u_def)
  have "\<bar>js_val (round_to_double (int c) (int a)) - of_int (int c) / of_int (int a)\<bar>
        \<le> (of_int (int c) / of_int (int a)) / 2 ^ 53"
    by (rule round_to_double_error) (use c a in simp_all)
  then have qerr: "\<bar>q - x\<bar> \<le> x * u"
    by (simp add: q_def qq_def js_div_of_nat x_def u_def)
  have "x * u < x"
    using x(1) by (simp add: u_def)
  with qerr have qpos: "0 < q"
    by linarith
  have "q = of_int (fst qq) * 2 powi (snd qq)"
    by (simp add: q_def js_val_def)
  with qpos powi_two_pos [of "snd qq"] have "0 < rat_of_int (fst qq)"
    by (simp add: zero_less_mult_iff)
  then have mpos: "0 < fst qq * 100"
    by simp
  define R where "R = js_val (round_to_double (fst qq * 100) 1)"
  define M where "M = rat_of_int (fst qq * 100)"
  define w where "w = (2::rat) powi (snd qq)"
  have wpos: "0 < w"
    by (simp add: w_def powi_two_pos)
  have pq: "p = R * w"
    using a by (simp add: p_def completionRate_def qq_def js_mul_hundred R_def w_def)
  have hq: "M * w = 100 * q"
    by (simp add: q_def js_val_def M_def w_def)
  have "\<bar>js_val (round_to_double (fst qq * 100) 1) - of_int (fst qq * 100) / of_int 1\<bar>
        \<le> (of_int (fst qq * 100) / of_int 1) / 2 ^ 53"
    by (rule round_to_double_error) (use mpos in simp_all)
  then have rm: "\<bar>R - M\<bar> \<le> M * u"
    by (simp add: u_def R_def M_def)
  have "\<bar>p - 100 * q\<bar> = \<bar>R - M\<bar> * w"
    unfolding pq hq [symmetric] using wpos
    by (simp add: abs_mult left_diff_distrib [symmetric])
  also have "\<dots> \<le> M * u * w"
    using rm wpos by (simp only: mult_le_cancel_right_pos)
  also have "\<dots> = 100 * q * u"
    unfolding hq [symmetric] by (simp only: ac_simps)
  finally have "\<bar>p - 100 * q\<bar> \<le> 100 * q * u" .
  moreover have "q \<le> x * (1 + u)"
    using qerr by (simp add: algebra_simps abs_le_iff)
  ultimately have perr: "\<bar>p - 100 * x\<bar> \<le> 100 * x * (1 + u) * u + 100 * x * u"
  proof -
    assume 1: "\<bar>p - 100 * q\<bar> \<le> 100 * q * u" and 2: "q \<le> x * (1 + u)"
    have "100 * q * u \<le> 100 * (x * (1 + u)) * u"
      using 2 upos by simp
    moreover have "\<bar>100 * q - 100 * x\<bar> \<le> 100 * x * u"
      using qerr by (simp add: abs_le_iff)
    ultimately show ?thesis
      using 1 by (simp add: abs_le_iff algebra_simps)
  qed
  have "100 * x * (1 + u) * u + 100 * x * u = x * (100 * u * (2 + u))"
    by (simp add: algebra_simps)
  also have "\<dots> \<le> 1 * (100 * u * (2 + u))"
    using x(2) upos by (intro mult_right_mono) simp_all
  also have "\<dots> < 1 / 2 ^ 45"
    by (simp add: u_def)
  finally have "100 * x * (1 + u) * u + 100 * x * u < 1 / 2 ^ 45" .
  with perr have "\<bar>p - 100 * x\<bar> < 1 / 2 ^ 45"
    by linarith
  then show "\<bar>js_val (completionRate c a) - 100 * of_nat c / of_nat a\<bar> < 1 / 2 ^ 45"
    by (simp add: p_def x_def)
  have "0 \<le> p"
  proof -
    have "0 \<le> 100 * q - 100 * q * u"
      using qpos by (simp add: u_def)
    with \<open>\<bar>p - 100 * q\<bar> \<le> 100 * q * u\<close> show ?thesis
      by linarith
  qed
  then show "0 \<le> js_val (completionRate c a)"
    by (simp add: p_def)
qed

lemma completionPercentage_rate:
  "0 < a \<Longrightarrow> completionPercentage c a = \<lfloor>js_val (completionRate c a) + 1 / 2\<rfloor>"
  by (simp add: completionPercentage_def completionRate_def Math_round_floor)

lemma floor_half: "\<lfloor>(1::rat) / 2\<rfloor> = 0"
  by (rule floor_unique) simp_all

lemma completionPercentage_zero: "0 < a \<Longrightarrow> completionPercentage 0 a = 0"
  by (simp add: completionPercentage_rate completionRate_zero js_val_def floor_half)

lemma completionPercentage_range:
  assumes "c \<le> a" and "0 < a"
  shows "0 \<le> completionPercentage c a \<and> completionPercentage c a \<le> 100"
proof (cases "c = 0")
  case True
  then show ?thesis
    using assms(2) by (simp add: completionPercentage_zero)
next
  case False
  then have c: "0 < c" by simp
  define p where "p = js_val (completionRate c a)"
  define X where "X = 100 * rat_of_nat c / of_nat a"
  have "rat_of_nat c / of_nat a \<le> 1"
    using assms by simp
  then have X: "X \<le> 100"
    by (simp add: X_def)
  have e: "\<bar>p - X\<bar> < 1 / 2 ^ 45" and p0: "0 \<le> p"
    unfolding p_def X_def using completionRate_error [OF c assms(1)] by simp_all
  have "(1::rat) / 2 ^ 45 < 1 / 2"
    by simp
  with e have "p - X < 1 / 2"
    by linarith
  with X have "p + 1 / 2 < 101"
    by linarith
  then have "\<lfloor>p + 1 / 2\<rfloor> < 101"
    by (simp add: floor_less_iff)
  moreover have "0 \<le> \<lfloor>p + 1 / 2\<rfloor>"
    using p0 by simp
  ultimately show ?thesis
    using assms(2) by (simp add: completionPercentage_rate p_def)
qed

lemma nearest_percent_div:
  assumes "0 < a"
  shows "\<lfloor>100 * rat_of_nat c / of_nat a + 1 / 2\<rfloor> = (200 * int c + int a) div (2 * int a)"
proof -
  have "100 * rat_of_nat c / of_nat a + 1 / 2 =
        rat_of_int (200 * int c + int a) / rat_of_int (2 * int a)"
    using assms by (simp add: field_simps)
  then show ?thesis
    by (simp only: floor_divide_of_int_eq)
qed

text \<open>
  Unless \<open>100 c / a\<close> lies exactly halfway between two integers, the rounding errors of the
  division and the multiplication do not reach \<^verbatim>\<open>Math.round\<close>.
\<close>

lemma completionPercentage_nearest:
  assumes ca: "c \<le> a" and a: "0 < a" and len: "a < 2 ^ 32"
    and nt: "(200 * int c + int a) mod (2 * int a) \<noteq> 0"
  shows "completionPercentage c a = (200 * int c + int a) div (2 * int a)"
proof (cases "c = 0")
  case True
  then show ?thesis
    using a by (simp add: completionPercentage_zero)
next
  case False
  then have c: "0 < c" by simp
  define p where "p = js_val (completionRate c a)"
  define R where "R = (200 * int c + int a) div (2 * int a)"
  define r where "r = (200 * int c + int a) mod (2 * int a)"
  define z where "z = 100 * rat_of_nat c / of_nat a + 1 / 2"
  define g where "g = 1 / (2 * rat_of_nat a)"
  have a2: "0 < 2 * int a"
    using a by simp
  have "0 \<le> r" and "r < 2 * int a" and "r \<noteq> 0"
    unfolding r_def using pos_mod_sign [OF a2] pos_mod_bound [OF a2] nt by simp_all
  then have r: "1 \<le> r" "r \<le> 2 * int a - 1"
    by linarith+
  have "200 * int c + int a = R * (2 * int a) + r"
    unfolding R_def r_def by (rule div_mult_mod_eq [symmetric])
  then have "rat_of_int (200 * int c + int a) = rat_of_int (R * (2 * int a) + r)"
    by (rule arg_cong)
  also have "\<dots> = of_int R * (2 * of_nat a) + of_int r"
    by simp
  finally have e2: "rat_of_int (200 * int c + int a) = of_int R * (2 * of_nat a) + of_int r" .
  have z1: "z = rat_of_int (200 * int c + int a) / (2 * of_nat a)"
    using a by (simp add: z_def field_simps)
  have z: "z = of_int R + of_int r * g"
    unfolding z1 e2 g_def using a by (simp add: add_divide_distrib)
  have gpos: "0 < g"
    using a by (simp add: g_def)
  have "rat_of_nat a < rat_of_nat (2 ^ 32)"
    using len by (simp only: of_nat_less_iff)
  then have "rat_of_nat a < 2 ^ 32"
    by simp
  then have "2 * rat_of_nat a < 2 ^ 45"
    by simp
  then have small: "1 / 2 ^ 45 < g"
    using a unfolding g_def by (simp add: field_simps)
  have "1 * g \<le> rat_of_int r * g"
    using r(1) gpos by (simp only: mult_le_cancel_right_pos of_int_1_le_iff)
  then have low: "of_int R + g \<le> z"
    by (simp add: z)
  have "rat_of_int r \<le> rat_of_int (2 * int a - 1)"
    using r(2) by (simp only: of_int_le_iff)
  then have "rat_of_int r \<le> 2 * of_nat a - 1"
    by simp
  then have "rat_of_int r * g \<le> (2 * of_nat a - 1) * g"
    using gpos by (simp only: mult_le_cancel_right_pos)
  also have "\<dots> = 1 - g"
    using a by (simp add: g_def field_simps)
  finally have up: "z \<le> of_int R + 1 - g"
    by (simp add: z)
  have "\<bar>p - 100 * of_nat c / of_nat a\<bar> < 1 / 2 ^ 45"
    unfolding p_def using completionRate_error(1) [OF c ca] .
  then have "\<bar>(p + 1 / 2) - z\<bar> < g"
    using small by (simp add: z_def)
  then have "of_int R \<le> p + 1 / 2" and "p + 1 / 2 < of_int R + 1"
    using low up by (simp_all add: abs_less_iff)
  then have "\<lfloor>p + 1 / 2\<rfloor> = R"
    by (rule floor_unique)
  then show ?thesis
    using a by (simp add: completionPercentage_rate p_def R_def)
qed

lemma ties_below_40:
  "list_all (\<lambda>a. list_all (\<lambda>c. (200 * int c + int a) mod (2 * int a) \<noteq> 0
        \<or> (c, a) \<in> set [(1, 8), (3, 8), (5, 8), (7, 8), (2, 16), (6, 16), (10, 16), (14, 16),
             (3, 24), (9, 24), (15, 24), (21, 24), (4, 32), (12, 32), (20, 32), (28, 32)])
      [0..<Suc a]) [1..<40]"
  by code_simp

lemma ties_evaluated:
  "list_all (\<lambda>(c, a). completionPercentage c a = (200 * int c + int a) div (2 * int a))
     [(1, 8), (3, 8), (5, 8), (7, 8), (2, 16), (6, 16), (10, 16), (14, 16),
      (3, 24), (9, 24), (15, 24), (21, 24), (4, 32), (12, 32), (20, 32), (28, 32)]"
  by code_simp

subsection \<open>Reports of the JSON-file store\<close>

lemma generateAllMonthlyReports_json_nth:
  assumes "k < length (j_users data)"
  shows "fst (generateAllMonthlyReports_json je month year data) ! k =
         user_report_json je month year data (j_users data ! k, k)"
  using assms by (simp add: generateAllMonthlyReports_json_def Let_def)

lemma generateAllMonthlyReports_json_rows:
  "j_monthly_reports (snd (generateAllMonthlyReports_json je month year data)) =
     j_monthly_reports data @ fst (generateAllMonthlyReports_json je month year data)"
  "j_tasks (snd (generateAllMonthlyReports_json je month year data)) = j_tasks data"
  "j_users (snd (generateAllMonthlyReports_json je month year data)) = j_users data"
  "length (fst (generateAllMonthlyReports_json je month year data)) = length (j_users data)"
  by (simp_all add: generateAllMonthlyReports_json_def Let_def)

lemma user_report_json_counts:
  "jr_assigned_tasks (user_report_json je month year data (u, k)) =
     length (jtasks_of (ju_username u) month year (j_tasks data))"
  "jr_completed_tasks (user_report_json je month year data (u, k)) =
     length (filter (\<lambda>t. jt_status t = ''completed'')
               (jtasks_of (ju_username u) month year (j_tasks data)))"
  "jr_completion_percentage (user_report_json je month year data (u, k)) =
     completionRate
       (length (filter (\<lambda>t. jt_status t = ''completed'')
                  (jtasks_of (ju_username u) month year (j_tasks data))))
       (length (jtasks_of (ju_username u) month year (j_tasks data)))"
  "jr_user_id (user_report_json je month year data (u, k)) = ju_id u"
  "jr_username (user_report_json je month year data (u, k)) = ju_username u"
  "jr_month (user_report_json je month year data (u, k)) = month"
  "jr_year (user_report_json je month year data (u, k)) = year"
  by (simp_all add: user_report_json_def Let_def jtasks_of_def)

text \<open>
  C7. For a user without tasks in the period, the SQLite store's
  \<^verbatim>\<open>generateMonthlyReport\<close> reports and stores 0 percent, and the JSON-file store's
  \<^verbatim>\<open>generateAllMonthlyReports\<close> reports 100 percent.
\<close>

theorem zero_assigned_defaults_differ:
  assumes ok: "\<not> driver_err e 0 \<and> \<not> driver_err e 1"
    and none: "tasks_of username month year (tasks db) = []"
    and k: "k < length (j_users data)"
    and jnone: "jtasks_of (ju_username (j_users data ! k)) month year (j_tasks data) = []"
  shows "(case fst (generateMonthlyReport e userId username month year db) of
            Inr r \<Rightarrow> rp_tasksAssigned r = 0 \<and> rp_completionPercentage r = 0
          | Inl x \<Rightarrow> False)
       \<and> r_completion_percentage
           (last (monthly_reports (snd (generateMonthlyReport e userId username month year db))))
          = 0
       \<and> jr_assigned_tasks (fst (generateAllMonthlyReports_json je month year data) ! k) = 0
       \<and> js_val (jr_completion_percentage
                   (fst (generateAllMonthlyReports_json je month year data) ! k)) = 100"
proof -
  have z: "completionPercentage 0 0 = 0"
    by (simp add: completionPercentage_def)
  have h: "js_val (completionRate 0 0) = 100"
    by (simp add: completionRate_def js_of_nat_def js_val_def)
  have "case fst (generateMonthlyReport e userId username month year db) of
            Inr r \<Rightarrow> rp_tasksAssigned r = 0 \<and> rp_completionPercentage r = 0
          | Inl x \<Rightarrow> False"
    unfolding generateMonthlyReport_result using ok by (simp add: none z)
  moreover have "r_completion_percentage
           (last (monthly_reports (snd (generateMonthlyReport e userId username month year db))))
          = 0"
    using ok by (simp add: generateMonthlyReport_rows none z)
  moreover have "jr_assigned_tasks (fst (generateAllMonthlyReports_json je month year data) ! k) = 0"
    unfolding generateAllMonthlyReports_json_nth [OF k] user_report_json_counts
    by (simp add: jnone)
  moreover have "js_val (jr_completion_percentage
                   (fst (generateAllMonthlyReports_json je month year data) ! k)) = 100"
    unfolding generateAllMonthlyReports_json_nth [OF k] user_report_json_counts
    by (simp add: jnone h)
  ultimately show ?thesis
    by simp
qed

theorem zero_assigned_defaults_differ_witness:
  "tasks_of ''deepanshu'' 2 2026 (tasks january_db) = []
   \<and> jtasks_of ''deepanshu'' 2 2026 (j_tasks january_data) = []
   \<and> map_sum id rp_completionPercentage
        (fst (generateMonthlyReport (steady ''2026-02-28 23:55:00'') 1 ''deepanshu'' 2 2026
                january_db)) = Inr 0
   \<and> js_val (jr_completion_percentage
        (fst (generateAllMonthlyReports_json (jsteady 1772322900000 ''2026-02-28T23:55:00.000Z'')
                2 2026 january_data) ! 0)) = 100"
proof -
  have ok: "\<not> driver_err (steady ''2026-02-28 23:55:00'') 0
            \<and> \<not> driver_err (steady ''2026-02-28 23:55:00'') 1"
    by (simp add: steady_def)
  have none: "tasks_of ''deepanshu'' 2 2026 (tasks january_db) = []"
    by (simp add: tasks_of_def january_db_def kachra_def pani_def)
  have k: "0 < length (j_users january_data)"
    by (simp add: january_data_def fresh_data_def default_jusers_def)
  have u: "ju_username (j_users january_data ! 0) = ''deepanshu''"
    by (simp add: january_data_def fresh_data_def default_jusers_def)
  have jnone: "jtasks_of (ju_username (j_users january_data ! 0)) 2 2026 (j_tasks january_data) = []"
    unfolding u by (simp add: jtasks_of_def january_data_def chore_def)
  from zero_assigned_defaults_differ [OF ok none k jnone, of 1
      "jsteady 1772322900000 ''2026-02-28T23:55:00.000Z''"]
  show ?thesis
    using none jnone [unfolded u] by (auto split: sum.splits)
qed


lemma completionPercentage_below_40:
  assumes a: "0 < a" "a < 40" and ca: "c \<le> a"
  shows "completionPercentage c a = (200 * int c + int a) div (2 * int a)"
proof -
  let ?ties = "[(1, 8), (3, 8), (5, 8), (7, 8), (2, 16), (6, 16), (10, 16), (14, 16),
      (3, 24), (9, 24), (15, 24), (21, 24), (4, 32), (12, 32), (20, 32), (28, 32)] :: (nat \<times> nat) list"
  have "a \<in> set [1..<40]" and "c \<in> set [0..<Suc a]"
    using a ca by auto
  then have "(200 * int c + int a) mod (2 * int a) \<noteq> 0 \<or> (c, a) \<in> set ?ties"
    by (rule ties_below_40 [unfolded list_all_iff, rule_format])
  then show ?thesis
  proof
    assume "(200 * int c + int a) mod (2 * int a) \<noteq> 0"
    with ca a show ?thesis
      by (intro completionPercentage_nearest) simp_all
  next
    assume "(c, a) \<in> set ?ties"
    then show ?thesis
      using ties_evaluated [unfolded list_all_iff, rule_format, of "(c, a)"] by simp
  qed
qed

lemma not_halfway:
  assumes a: "0 < a"
    and n: "rat_of_int \<lfloor>100 * rat_of_nat c / of_nat a + 1 / 2\<rfloor> \<noteq> 100 * rat_of_nat c / of_nat a + 1 / 2"
  shows "(200 * int c + int a) mod (2 * int a) \<noteq> 0"
proof
  assume m: "(200 * int c + int a) mod (2 * int a) = 0"
  define R where "R = (200 * int c + int a) div (2 * int a)"
  have "200 * int c + int a = R * (2 * int a) + (200 * int c + int a) mod (2 * int a)"
    unfolding R_def by (rule div_mult_mod_eq [symmetric])
  then have "200 * int c + int a = R * (2 * int a)"
    using m by simp
  then have "rat_of_int (200 * int c + int a) = rat_of_int (R * (2 * int a))"
    by (rule arg_cong)
  then have "200 * rat_of_nat c + of_nat a = of_int R * (2 * of_nat a)"
    by simp
  then have "100 * rat_of_nat c / of_nat a + 1 / 2 = of_int R"
    using a by (simp add: field_simps)
  then show False
    using n by simp
qed

text \<open>
  C6 (as amended). In the SQLite store, every report generated for a user with at least
  one task (and fewer than \<open>2^32\<close>, the bound of an array length) carries and stores
  \<^verbatim>\<open>Math.round((completed / assigned) * 100)\<close>: an integer from 0 to 100, equal to
  \<open>100 * completed / assigned\<close> rounded to the nearest integer whenever that quotient is
  not exactly halfway between two integers, and in every case (a half going up) when
  fewer than 40 tasks are assigned. With 40 tasks the double arithmetic can fall below the
  half: 23 of 40 give 57. The JSON-file store keeps the double \<^verbatim>\<open>(completed / assigned) *
  100\<close> unrounded, within \<open>2^-45\<close> of the exact quotient.
\<close>

theorem generateMonthlyReport_percentage:
  assumes ok: "\<not> driver_err e 0 \<and> \<not> driver_err e 1"
    and some: "tasks_of username month year (tasks db) \<noteq> []"
    and len: "length (tasks_of username month year (tasks db)) < 2 ^ 32"
    and k: "k < length (j_users data)"
    and jsome: "jtasks_of (ju_username (j_users data ! k)) month year (j_tasks data) \<noteq> []"
  shows "(case fst (generateMonthlyReport e userId username month year db) of
            Inr r \<Rightarrow>
              0 \<le> rp_completionPercentage r \<and> rp_completionPercentage r \<le> 100
            \<and> (rat_of_int \<lfloor>100 * rat_of_nat (rp_tasksCompleted r) / of_nat (rp_tasksAssigned r) + 1 / 2\<rfloor>
                  \<noteq> 100 * of_nat (rp_tasksCompleted r) / of_nat (rp_tasksAssigned r) + 1 / 2
                \<longrightarrow> rp_completionPercentage r =
                    \<lfloor>100 * rat_of_nat (rp_tasksCompleted r) / of_nat (rp_tasksAssigned r) + 1 / 2\<rfloor>)
            \<and> (rp_tasksAssigned r < 40
                \<longrightarrow> rp_completionPercentage r =
                    \<lfloor>100 * rat_of_nat (rp_tasksCompleted r) / of_nat (rp_tasksAssigned r) + 1 / 2\<rfloor>)
            \<and> r_completion_percentage
                (last (monthly_reports
                   (snd (generateMonthlyReport e userId username month year db)))) =
                rp_completionPercentage r
          | Inl x \<Rightarrow> False)
       \<and> completionPercentage 23 40 = 57
       \<and> jr_completion_percentage (fst (generateAllMonthlyReports_json je month year data) ! k) =
           completionRate
             (jr_completed_tasks (fst (generateAllMonthlyReports_json je month year data) ! k))
             (jr_assigned_tasks (fst (generateAllMonthlyReports_json je month year data) ! k))
       \<and> \<bar>js_val (jr_completion_percentage
                    (fst (generateAllMonthlyReports_json je month year data) ! k))
           - 100 * of_nat (jr_completed_tasks
                            (fst (generateAllMonthlyReports_json je month year data) ! k))
               / of_nat (jr_assigned_tasks
                            (fst (generateAllMonthlyReports_json je month year data) ! k))\<bar>
          < 1 / 2 ^ 45"
proof -
  define a where "a = length (tasks_of username month year (tasks db))"
  define c where "c = length (filter t_completed (tasks_of username month year (tasks db)))"
  have a: "0 < a" "a < 2 ^ 32"
    using some len by (simp_all add: a_def)
  have ca: "c \<le> a"
    by (simp add: a_def c_def)
  have range: "0 \<le> completionPercentage c a \<and> completionPercentage c a \<le> 100"
    using ca a(1) by (rule completionPercentage_range)
  have near: "completionPercentage c a = \<lfloor>100 * rat_of_nat c / of_nat a + 1 / 2\<rfloor>"
    if "rat_of_int \<lfloor>100 * rat_of_nat c / of_nat a + 1 / 2\<rfloor> \<noteq> 100 * rat_of_nat c / of_nat a + 1 / 2"
    unfolding nearest_percent_div [OF a(1)]
    using ca a not_halfway [OF a(1) that] by (rule completionPercentage_nearest)
  have small: "completionPercentage c a = \<lfloor>100 * rat_of_nat c / of_nat a + 1 / 2\<rfloor>"
    if "a < 40"
    unfolding nearest_percent_div [OF a(1)]
    using a(1) that ca by (rule completionPercentage_below_40)
  have sqlite: "case fst (generateMonthlyReport e userId username month year db) of
            Inr r \<Rightarrow>
              0 \<le> rp_completionPercentage r \<and> rp_completionPercentage r \<le> 100
            \<and> (rat_of_int \<lfloor>100 * rat_of_nat (rp_tasksCompleted r) / of_nat (rp_tasksAssigned r) + 1 / 2\<rfloor>
                  \<noteq> 100 * of_nat (rp_tasksCompleted r) / of_nat (rp_tasksAssigned r) + 1 / 2
                \<longrightarrow> rp_completionPercentage r =
                    \<lfloor>100 * rat_of_nat (rp_tasksCompleted r) / of_nat (rp_tasksAssigned r) + 1 / 2\<rfloor>)
            \<and> (rp_tasksAssigned r < 40
                \<longrightarrow> rp_completionPercentage r =
                    \<lfloor>100 * rat_of_nat (rp_tasksCompleted r) / of_nat (rp_tasksAssigned r) + 1 / 2\<rfloor>)
            \<and> r_completion_percentage
                (last (monthly_reports
                   (snd (generateMonthlyReport e userId username month year db)))) =
                rp_completionPercentage r
          | Inl x \<Rightarrow> False"
    unfolding generateMonthlyReport_result
    using ok range near small
    by (simp add: generateMonthlyReport_rows a_def [symmetric] c_def [symmetric])
  define ja where "ja = length (jtasks_of (ju_username (j_users data ! k)) month year (j_tasks data))"
  define jc where "jc = length (filter (\<lambda>t. jt_status t = ''completed'')
                  (jtasks_of (ju_username (j_users data ! k)) month year (j_tasks data)))"
  have ja: "0 < ja" and jca: "jc \<le> ja"
    using jsome by (simp_all add: ja_def jc_def)
  have jerr: "\<bar>js_val (completionRate jc ja) - 100 * of_nat jc / of_nat ja\<bar> < 1 / 2 ^ 45"
  proof (cases "jc = 0")
    case True
    then show ?thesis
      using ja by (simp add: completionRate_zero js_val_def)
  next
    case False
    then show ?thesis
      using jca by (intro completionRate_error(1)) simp_all
  qed
  have t: "completionPercentage 23 40 = 57"
    by code_simp
  show ?thesis
    unfolding generateAllMonthlyReports_json_nth [OF k] user_report_json_counts
      ja_def [symmetric] jc_def [symmetric]
    using sqlite t jerr by simp
qed

lemma two_of_three: "completionPercentage 2 3 = 67"
  by code_simp

lemma two_of_three_unrounded: "completionRate 2 3 = (4691249611844266, - 46)"
  by code_simp

theorem generateMonthlyReport_percentage_witness:
  "tasks_of ''sonu'' 1 2026 (tasks busy_db) \<noteq> []
   \<and> length (tasks_of ''sonu'' 1 2026 (tasks busy_db)) < 2 ^ 32
   \<and> 1 < length (j_users busy_data)
   \<and> jtasks_of (ju_username (j_users busy_data ! 1)) 1 2026 (j_tasks busy_data) \<noteq> []
   \<and> map_sum id rp_tasksAssigned
        (fst (generateMonthlyReport (steady ''2026-01-31 23:55:00'') 2 ''sonu'' 1 2026 busy_db))
       = Inr 3
   \<and> map_sum id rp_tasksCompleted
        (fst (generateMonthlyReport (steady ''2026-01-31 23:55:00'') 2 ''sonu'' 1 2026 busy_db))
       = Inr 2
   \<and> map_sum id rp_completionPercentage
        (fst (generateMonthlyReport (steady ''2026-01-31 23:55:00'') 2 ''sonu'' 1 2026 busy_db))
       = Inr 67"
proof -
  have ok: "\<not> driver_err (steady ''2026-01-31 23:55:00'') 0
            \<and> \<not> driver_err (steady ''2026-01-31 23:55:00'') 1"
    by (simp add: steady_def)
  have ts: "tasks_of ''sonu'' 1 2026 (tasks busy_db) = tasks busy_db"
    "length (tasks busy_db) = 3" "length (filter t_completed (tasks busy_db)) = 2"
    by (simp_all add: tasks_of_def busy_db_def kachra_def pani_def)
  have some: "tasks_of ''sonu'' 1 2026 (tasks busy_db) \<noteq> []"
    unfolding ts(1) by (simp add: busy_db_def)
  have len: "length (tasks_of ''sonu'' 1 2026 (tasks busy_db)) < 2 ^ 32"
    unfolding ts by simp
  have k: "1 < length (j_users busy_data)"
    by (simp add: busy_data_def fresh_data_def default_jusers_def)
  have jsome: "jtasks_of (ju_username (j_users busy_data ! 1)) 1 2026 (j_tasks busy_data) \<noteq> []"
    by (simp add: jtasks_of_def busy_data_def fresh_data_def default_jusers_def chore_def)
  have r: "fst (generateMonthlyReport (steady ''2026-01-31 23:55:00'') 2 ''sonu'' 1 2026 busy_db) =
      Inr \<lparr>rp_userId = 2, rp_username = ''sonu'', rp_month = 1, rp_year = 2026,
           rp_tasksAssigned = 3, rp_tasksCompleted = 2, rp_completionPercentage = 67,
           rp_reportData = (map task_view_of (tasks busy_db), ''2026-01-31 23:55:00'')\<rparr>"
    unfolding generateMonthlyReport_result ts two_of_three by (simp add: steady_def)
  have goal: ?thesis
    using some len k jsome by (simp add: r)
  show ?thesis
    by (insert generateMonthlyReport_percentage [OF ok some len k jsome, of 2]) (rule goal)
qed

text \<open>
  The claim as stated fails in the JSON-file store: with two of sonu's three chores done,
  the stored percentage is the double 66.66666666666666, not the integer 67.
\<close>

theorem generateAllMonthlyReports_json_unrounded:
  "jr_username (fst (generateAllMonthlyReports_json
       (jsteady 1769903700000 ''2026-01-31T23:55:00.000Z'') 1 2026 busy_data) ! 1) = ''sonu''
   \<and> jr_assigned_tasks (fst (generateAllMonthlyReports_json
       (jsteady 1769903700000 ''2026-01-31T23:55:00.000Z'') 1 2026 busy_data) ! 1) = 3
   \<and> jr_completed_tasks (fst (generateAllMonthlyReports_json
       (jsteady 1769903700000 ''2026-01-31T23:55:00.000Z'') 1 2026 busy_data) ! 1) = 2
   \<and> js_val (jr_completion_percentage (fst (generateAllMonthlyReports_json
       (jsteady 1769903700000 ''2026-01-31T23:55:00.000Z'') 1 2026 busy_data) ! 1)) =
       2345624805922133 / 35184372088832
   \<and> js_val (jr_completion_percentage (fst (generateAllMonthlyReports_json
       (jsteady 1769903700000 ''2026-01-31T23:55:00.000Z'') 1 2026 busy_data) ! 1)) \<noteq> 67"
proof -
  have k: "1 < length (j_users busy_data)"
    by (simp add: busy_data_def fresh_data_def default_jusers_def)
  have u: "j_users busy_data ! 1 = \<lparr>ju_id = 2, ju_username = ''sonu'', ju_password_hash = ''$2b$10$b''\<rparr>"
    by (simp add: busy_data_def fresh_data_def default_jusers_def)
  have ts: "jtasks_of ''sonu'' 1 2026 (j_tasks busy_data) = j_tasks busy_data"
    "length (j_tasks busy_data) = 3"
    "length (filter (\<lambda>t. jt_status t = ''completed'') (j_tasks busy_data)) = 2"
    by (simp_all add: jtasks_of_def busy_data_def chore_def)
  have v: "js_val (4691249611844266, - 46) = 2345624805922133 / 35184372088832"
    by (simp add: js_val_def power_int_minus)
  show ?thesis
    unfolding generateAllMonthlyReports_json_nth [OF k] u user_report_json_counts
    by (simp add: ts two_of_three_unrounded v)
qed


subsection \<open>Regenerating a report\<close>

lemma replaced_rows_one:
  assumes "report_key row = K"
  shows "length (filter (\<lambda>r. report_key r = K) (filter (\<lambda>r. report_key r \<noteq> K) rows @ [row])) = 1"
  using assms by (simp add: filter_empty_conv)

lemma replaced_rows_others:
  assumes "report_key row = K"
  shows "filter (\<lambda>r. report_key r \<noteq> K) (filter (\<lambda>r. report_key r \<noteq> K) rows @ [row]) =
         filter (\<lambda>r. report_key r \<noteq> K) rows"
  using assms by simp

lemma replaced_rows_distinct:
  assumes "distinct (map report_key rows)" and "report_key row = K"
  shows "distinct (map report_key (filter (\<lambda>r. report_key r \<noteq> K) rows @ [row]))"
  using assms by (auto simp: distinct_map_filter)

lemma user_report_json_tasks_only:
  assumes "j_tasks data' = j_tasks data"
  shows "user_report_json je month year data' = user_report_json je month year data"
  using assms by (simp add: user_report_json_def fun_eq_iff)

lemma generateMonthlyReport_seq:
  assumes "\<not> driver_err e 0 \<and> \<not> driver_err e 1"
  shows "monthly_reports_seq (snd (generateMonthlyReport e userId username month year db)) =
         Suc (monthly_reports_seq db)"
  using assms by (simp add: generateMonthlyReport_def Let_def)

lemma generateMonthlyReport_row_ids:
  assumes "\<not> driver_err e 0 \<and> \<not> driver_err e 1"
  shows "map r_id (monthly_reports (snd (generateMonthlyReport e userId username month year db))) =
         map r_id (filter (\<lambda>r. report_key r \<noteq> (userId, month, year)) (monthly_reports db))
         @ [Suc (monthly_reports_seq db)]"
    and "map report_key
           (monthly_reports (snd (generateMonthlyReport e userId username month year db))) =
         map report_key
           (filter (\<lambda>r. report_key r \<noteq> (userId, month, year)) (monthly_reports db))
         @ [(userId, month, year)]"
  using assms by (simp_all add: generateMonthlyReport_rows report_key_def)

lemma generateAllMonthlyReports_json_keys:
  "map jr_user_id (fst (generateAllMonthlyReports_json je month year data)) =
     map ju_id (j_users data)"
  "map jr_month (fst (generateAllMonthlyReports_json je month year data)) =
     replicate (length (j_users data)) month"
  "map jr_year (fst (generateAllMonthlyReports_json je month year data)) =
     replicate (length (j_users data)) year"
  by (rule nth_equalityI;
      simp add: generateAllMonthlyReports_json_rows generateAllMonthlyReports_json_nth
        user_report_json_counts)+

text \<open>
  C5 (as amended). Generating a report twice over unchanged task rows gives the same
  assigned count, completed count and percentage in both stores. In the SQLite store the
  task rows are not touched, the second call replaces the row of the key
  (user, month, year), so exactly one row of that key exists after each call, the rows of
  other keys stay, and a table without duplicate keys stays without them. The JSON-file
  store appends: after the second call the reports of both calls are in the collection.
\<close>

theorem generateMonthlyReport_twice:
  assumes ok1: "\<not> driver_err e1 0 \<and> \<not> driver_err e1 1"
    and ok2: "\<not> driver_err e2 0 \<and> \<not> driver_err e2 1"
  shows "(let first = generateMonthlyReport e1 userId username month year db;
              second = generateMonthlyReport e2 userId username month year (snd first)
          in (case (fst first, fst second) of
                (Inr r1, Inr r2) \<Rightarrow>
                  rp_tasksAssigned r2 = rp_tasksAssigned r1
                \<and> rp_tasksCompleted r2 = rp_tasksCompleted r1
                \<and> rp_completionPercentage r2 = rp_completionPercentage r1
                \<and> fst (rp_reportData r2) = fst (rp_reportData r1)
              | other \<Rightarrow> False)
           \<and> tasks (snd second) = tasks db
           \<and> length (filter (\<lambda>r. report_key r = (userId, month, year))
                        (monthly_reports (snd first))) = 1
           \<and> length (filter (\<lambda>r. report_key r = (userId, month, year))
                        (monthly_reports (snd second))) = 1
           \<and> filter (\<lambda>r. report_key r \<noteq> (userId, month, year)) (monthly_reports (snd second)) =
               filter (\<lambda>r. report_key r \<noteq> (userId, month, year)) (monthly_reports db)
           \<and> (distinct (map report_key (monthly_reports db))
                \<longrightarrow> distinct (map report_key (monthly_reports (snd second)))))
       \<and> (let jfirst = generateAllMonthlyReports_json je1 month year data;
               jsecond = generateAllMonthlyReports_json je2 month year (snd jfirst)
           in map (\<lambda>r. (jr_user_id r, jr_assigned_tasks r, jr_completed_tasks r,
                         jr_completion_percentage r)) (fst jsecond) =
              map (\<lambda>r. (jr_user_id r, jr_assigned_tasks r, jr_completed_tasks r,
                         jr_completion_percentage r)) (fst jfirst)
            \<and> j_monthly_reports (snd jsecond) =
                j_monthly_reports data @ fst jfirst @ fst jsecond
            \<and> length (fst jfirst) = length (j_users data)
            \<and> length (fst jsecond) = length (j_users data))"
proof -
  let ?K = "(userId, month, year)"
  let ?first = "generateMonthlyReport e1 userId username month year db"
  let ?second = "generateMonthlyReport e2 userId username month year (snd ?first)"
  note t1 = generateMonthlyReport_tasks(1) [of e1 userId username month year db]
  have results: "case (fst ?first, fst ?second) of
                (Inr r1, Inr r2) \<Rightarrow>
                  rp_tasksAssigned r2 = rp_tasksAssigned r1
                \<and> rp_tasksCompleted r2 = rp_tasksCompleted r1
                \<and> rp_completionPercentage r2 = rp_completionPercentage r1
                \<and> fst (rp_reportData r2) = fst (rp_reportData r1)
              | other \<Rightarrow> False"
    unfolding generateMonthlyReport_result t1 using ok1 ok2 by simp
  have t2: "tasks (snd ?second) = tasks db"
    unfolding generateMonthlyReport_tasks ..
  obtain row1 where rows1: "monthly_reports (snd ?first) =
      filter (\<lambda>r. report_key r \<noteq> ?K) (monthly_reports db) @ [row1]" and k1: "report_key row1 = ?K"
    using generateMonthlyReport_rows [of e1 userId username month year db] ok1
    by (simp add: report_key_def)
  obtain row2 where rows2: "monthly_reports (snd ?second) =
      filter (\<lambda>r. report_key r \<noteq> ?K) (monthly_reports (snd ?first)) @ [row2]"
    and k2: "report_key row2 = ?K"
    using generateMonthlyReport_rows [of e2 userId username month year "snd ?first"] ok2
    by (simp add: report_key_def)
  have rows2': "monthly_reports (snd ?second) =
      filter (\<lambda>r. report_key r \<noteq> ?K) (monthly_reports db) @ [row2]"
    unfolding rows2 rows1 using k1 by simp
  have one1: "length (filter (\<lambda>r. report_key r = ?K) (monthly_reports (snd ?first))) = 1"
    unfolding rows1 using k1 by (rule replaced_rows_one)
  have one2: "length (filter (\<lambda>r. report_key r = ?K) (monthly_reports (snd ?second))) = 1"
    unfolding rows2' using k2 by (rule replaced_rows_one)
  have others: "filter (\<lambda>r. report_key r \<noteq> ?K) (monthly_reports (snd ?second)) =
               filter (\<lambda>r. report_key r \<noteq> ?K) (monthly_reports db)"
    unfolding rows2' using k2 by (rule replaced_rows_others)
  have dist: "distinct (map report_key (monthly_reports (snd ?second)))"
    if "distinct (map report_key (monthly_reports db))"
    unfolding rows2' using that k2 by (rule replaced_rows_distinct)
  let ?jfirst = "generateAllMonthlyReports_json je1 month year data"
  let ?jsecond = "generateAllMonthlyReports_json je2 month year (snd ?jfirst)"
  let ?agg = "\<lambda>r. (jr_user_id r, jr_assigned_tasks r, jr_completed_tasks r,
                    jr_completion_percentage r)"
  have j1: "fst ?jfirst = map (user_report_json je1 month year data)
                            (zip (j_users data) [0..<length (j_users data)])"
    by (simp add: generateAllMonthlyReports_json_def Let_def)
  have j2: "fst ?jsecond = map (user_report_json je2 month year data)
                            (zip (j_users data) [0..<length (j_users data)])"
    using user_report_json_tasks_only [OF generateAllMonthlyReports_json_rows(2)]
    by (simp add: generateAllMonthlyReports_json_def Let_def)
  have same: "map ?agg (fst ?jsecond) = map ?agg (fst ?jfirst)"
    unfolding j1 j2 map_map
    by (rule map_cong [OF refl]) (auto simp: user_report_json_counts)
  have jrows: "j_monthly_reports (snd ?jsecond) = j_monthly_reports data @ fst ?jfirst @ fst ?jsecond"
    by (simp add: generateAllMonthlyReports_json_rows(1))
  have lens: "length (fst ?jfirst) = length (j_users data)"
    "length (fst ?jsecond) = length (j_users data)"
    by (simp_all add: generateAllMonthlyReports_json_rows)
  show ?thesis
    unfolding Let_def using results t2 one1 one2 others dist same jrows lens by blast
qed

theorem generateMonthlyReport_twice_witness:
  "\<not> driver_err (steady ''2026-01-31 23:55:00'') 0 \<and> \<not> driver_err (steady ''2026-01-31 23:55:00'') 1
   \<and> \<not> driver_err (steady ''2026-02-01 08:00:00'') 0 \<and> \<not> driver_err (steady ''2026-02-01 08:00:00'') 1
   \<and> map r_id (monthly_reports
         (snd (generateMonthlyReport (steady ''2026-01-31 23:55:00'') 2 ''sonu'' 1 2026 january_db)))
       = [1]
   \<and> map r_id (monthly_reports
         (snd (generateMonthlyReport (steady ''2026-02-01 08:00:00'') 2 ''sonu'' 1 2026
           (snd (generateMonthlyReport (steady ''2026-01-31 23:55:00'') 2 ''sonu'' 1 2026
                   january_db))))) = [2]
   \<and> map report_key (monthly_reports
         (snd (generateMonthlyReport (steady ''2026-02-01 08:00:00'') 2 ''sonu'' 1 2026
           (snd (generateMonthlyReport (steady ''2026-01-31 23:55:00'') 2 ''sonu'' 1 2026
                   january_db))))) = [(2, 1, 2026)]"
proof -
  have ok: "\<not> driver_err (steady now) 0 \<and> \<not> driver_err (steady now) 1" for now
    by (simp add: steady_def)
  have empty: "monthly_reports january_db = []" "monthly_reports_seq january_db = 0"
    by (simp_all add: january_db_def fresh_db_def)
  have first: "monthly_reports (snd (generateMonthlyReport (steady ''2026-01-31 23:55:00'') 2
                 ''sonu'' 1 2026 january_db)) \<noteq> []"
    "filter (\<lambda>r. report_key r \<noteq> (2, 1, 2026))
       (monthly_reports (snd (generateMonthlyReport (steady ''2026-01-31 23:55:00'') 2
                 ''sonu'' 1 2026 january_db))) = []"
    using ok by (simp_all add: generateMonthlyReport_rows empty report_key_def)
  have goal: ?thesis
    using ok
    by (simp add: generateMonthlyReport_row_ids [OF ok] generateMonthlyReport_seq [OF ok]
        empty first)
  show ?thesis
    by (insert generateMonthlyReport_twice
          [OF ok [of "''2026-01-31 23:55:00''"] ok [of "''2026-02-01 08:00:00''"],
           where userId = 2 and username = "''sonu''" and month = 1 and year = 2026
             and db = january_db])
       (rule goal)
qed

text \<open>
  The claim as stated fails in the JSON-file store: generating the reports of January 2026
  twice leaves two reports for each (user, month, year).
\<close>

theorem generateAllMonthlyReports_json_duplicates:
  "map jr_user_id (j_monthly_reports (snd (generateAllMonthlyReports_json
       (jsteady 1769932800000 ''2026-02-01T08:00:00.000Z'') 1 2026
       (snd (generateAllMonthlyReports_json
               (jsteady 1769903700000 ''2026-01-31T23:55:00.000Z'') 1 2026 january_data)))))
     = [1, 2, 3, 4, 1, 2, 3, 4]
   \<and> map jr_month (j_monthly_reports (snd (generateAllMonthlyReports_json
       (jsteady 1769932800000 ''2026-02-01T08:00:00.000Z'') 1 2026
       (snd (generateAllMonthlyReports_json
               (jsteady 1769903700000 ''2026-01-31T23:55:00.000Z'') 1 2026 january_data)))))
     = [1, 1, 1, 1, 1, 1, 1, 1]
   \<and> map jr_year (j_monthly_reports (snd (generateAllMonthlyReports_json
       (jsteady 1769932800000 ''2026-02-01T08:00:00.000Z'') 1 2026
       (snd (generateAllMonthlyReports_json
               (jsteady 1769903700000 ''2026-01-31T23:55:00.000Z'') 1 2026 january_data)))))
     = [2026, 2026, 2026, 2026, 2026, 2026, 2026, 2026]"
proof -
  have u: "j_users january_data = default_jusers" "j_monthly_reports january_data = []"
    by (simp_all add: january_data_def fresh_data_def)
  have ids: "map ju_id default_jusers = [1, 2, 3, 4]" "length default_jusers = 4"
    by (simp_all add: default_jusers_def)
  have four: "replicate 4 x = [x, x, x, x]" for x :: int
    by (simp add: numeral_eq_Suc)
  show ?thesis
    by (simp add: generateAllMonthlyReports_json_rows generateAllMonthlyReports_json_keys
        u ids four)
qed


subsection \<open>The batch over all users\<close>




text \<open>The default users in the order of their names.\<close>

lemma sorted_users:
  "sort_key u_username default_users =
     [default_users ! 0, default_users ! 2, default_users ! 3, default_users ! 1]"
  by (simp add: default_users_def)



section \<open>Creating the tasks of a month\<close>































section \<open>The status of all users\<close>

lemma obj_set_absent:
  "k \<notin> fst ` set obj \<Longrightarrow> obj_set obj k v = obj @ [(k, v)]"
  by (induction obj) auto

lemma obj_set_last:
  "k \<notin> fst ` set obj \<Longrightarrow> obj_set (obj @ [(k, v)]) k v' = obj @ [(k, v')]"
  by (induction obj) auto

lemma obj_get_absent:
  assumes "k \<notin> fst ` set obj" and "k \<notin> set Object_prototype_keys"
  shows "obj_get obj k = Undefined"
proof -
  have "map_of obj k = None"
    using assms(1) by (simp add: map_of_eq_None_iff)
  then show ?thesis
    using assms(2) by (simp add: obj_get_def)
qed

lemma obj_get_last:
  assumes "k \<notin> fst ` set obj"
  shows "obj_get (obj @ [(k, v)]) k = Own v"
proof -
  have "map_of obj k = None"
    using assms by (simp add: map_of_eq_None_iff)
  then show ?thesis
    by (simp add: obj_get_def map_add_def)
qed

text \<open>The rows of one user that carry a task, once the user's entry exists.\<close>

lemma group_task_rows:
  assumes k: "k \<notin> fst ` set obj" and names: "\<forall>t \<in> set ts. t_name t \<noteq> []"
  shows "fold group_status_row
           (map (\<lambda>t. \<lparr>s_username = k, s_task_name = Some (t_name t),
                        s_completed = Some (t_completed t),
                        s_completed_at = t_completed_at t\<rparr>) ts)
           (Inr (obj @ [(k, \<lparr>us_username = k, us_tasks = vs\<rparr>)])) =
         Inr (obj @ [(k, \<lparr>us_username = k, us_tasks = vs @ map task_view_of ts\<rparr>)])"
  using names
proof (induction ts arbitrary: vs)
  case Nil
  then show ?case by simp
next
  case (Cons t ts)
  have n: "t_name t \<noteq> []"
    using Cons.prems by simp
  have step: "group_status_row
        \<lparr>s_username = k, s_task_name = Some (t_name t), s_completed = Some (t_completed t),
          s_completed_at = t_completed_at t\<rparr>
        (Inr (obj @ [(k, \<lparr>us_username = k, us_tasks = vs\<rparr>)])) =
      Inr (obj @ [(k, \<lparr>us_username = k, us_tasks = vs @ [task_view_of t]\<rparr>)])"
    using n by (simp add: group_status_row_def obj_get_last [OF k] obj_set_last [OF k]
        task_view_of_def)
  show ?case
    using Cons.IH [of "vs @ [task_view_of t]"] Cons.prems by (simp add: step)
qed

lemma group_user_rows:
  assumes k: "u_username u \<notin> fst ` set obj"
    and p: "u_username u \<notin> set Object_prototype_keys"
    and names: "\<forall>t \<in> set ts. t_name t \<noteq> []"
  shows "fold group_status_row (join_rows month year ts u) (Inr obj) =
         Inr (obj @ [(u_username u, status_of month year ts u)])"
proof (cases "tasks_of (u_username u) month year ts")
  case Nil
  then have "join_rows month year ts u =
      [\<lparr>s_username = u_username u, s_task_name = None, s_completed = None,
        s_completed_at = None\<rparr>]"
    by (simp add: join_rows_def tasks_of_def)
  then show ?thesis
    using Nil by (simp add: group_status_row_def obj_get_absent [OF k p] obj_set_absent [OF k]
        status_of_def)
next
  case (Cons t rest)
  let ?row = "\<lambda>t. \<lparr>s_username = u_username u, s_task_name = Some (t_name t),
                      s_completed = Some (t_completed t), s_completed_at = t_completed_at t\<rparr>"
  have rows: "join_rows month year ts u = ?row t # map ?row rest"
    using Cons by (simp add: join_rows_def tasks_of_def)
  have "set (t # rest) \<subseteq> set ts"
    unfolding Cons [symmetric] tasks_of_def by auto
  then have n: "t_name t \<noteq> []" and ns: "\<forall>t \<in> set rest. t_name t \<noteq> []"
    using names by auto
  have first: "group_status_row (?row t) (Inr obj) =
      Inr (obj @ [(u_username u, \<lparr>us_username = u_username u, us_tasks = [task_view_of t]\<rparr>)])"
    using n by (simp add: group_status_row_def obj_get_absent [OF k p] obj_set_absent [OF k]
        obj_get_last [OF k] obj_set_last [OF k] task_view_of_def)
  show ?thesis
    unfolding rows using group_task_rows [OF k ns, of "[task_view_of t]"]
    by (simp add: first status_of_def Cons)
qed

lemma group_all_users:
  assumes d: "distinct (map u_username us)"
    and fresh: "set (map u_username us) \<inter> fst ` set obj = {}"
    and p: "set (map u_username us) \<inter> set Object_prototype_keys = {}"
    and names: "\<forall>t \<in> set ts. t_name t \<noteq> []"
  shows "fold group_status_row (concat (map (join_rows month year ts) us)) (Inr obj) =
         Inr (obj @ map (\<lambda>u. (u_username u, status_of month year ts u)) us)"
  using d fresh p
proof (induction us arbitrary: obj)
  case Nil
  then show ?case by simp
next
  case (Cons u us)
  have k: "u_username u \<notin> fst ` set obj" and pk: "u_username u \<notin> set Object_prototype_keys"
    using Cons.prems by auto
  have step: "fold group_status_row (join_rows month year ts u) (Inr obj) =
         Inr (obj @ [(u_username u, status_of month year ts u)])"
    using k pk names by (rule group_user_rows)
  have d': "distinct (map u_username us)"
    using Cons.prems(1) by simp
  have fresh': "set (map u_username us) \<inter>
      fst ` set (obj @ [(u_username u, status_of month year ts u)]) = {}"
    using Cons.prems(1,2) by auto
  have p': "set (map u_username us) \<inter> set Object_prototype_keys = {}"
    using Cons.prems(3) by auto
  show ?case
    using Cons.IH [OF d' fresh' p'] by (simp add: step)
qed

lemma Object_entries_mset: "mset (Object_entries obj) = mset obj"
  by (simp add: Object_entries_def)

lemma Object_values_mset: "mset (Object_values obj) = mset (map snd obj)"
  unfolding Object_values_def mset_map Object_entries_mset ..

lemma usernames_not_indices:
  "\<not> is_array_index ''deepanshu''" "\<not> is_array_index ''sonu''"
  "\<not> is_array_index ''sachin''" "\<not> is_array_index ''sintu''"
  "\<not> is_array_index ''constructor''"
  by (simp_all add: is_array_index_def is_digit_def)

lemma january_status:
  "getAllUsersStatus (steady ''2026-01-05 10:00:00'') 1 2026 january_db =
     Inr [\<lparr>us_username = ''deepanshu'', us_tasks = []\<rparr>,
          \<lparr>us_username = ''sachin'',
            us_tasks = [\<lparr>v_name = ''Pani Lana'', v_completed = False, v_completedAt = None\<rparr>]\<rparr>,
          \<lparr>us_username = ''sintu'', us_tasks = []\<rparr>,
          \<lparr>us_username = ''sonu'',
            us_tasks = [\<lparr>v_name = ''Kachra Fekna'', v_completed = False,
                         v_completedAt = None\<rparr>]\<rparr>]"
proof -
  have rows: "status_rows 1 2026 january_db =
     [\<lparr>s_username = ''deepanshu'', s_task_name = None, s_completed = None, s_completed_at = None\<rparr>,
      \<lparr>s_username = ''sachin'', s_task_name = Some ''Pani Lana'', s_completed = Some False,
        s_completed_at = None\<rparr>,
      \<lparr>s_username = ''sintu'', s_task_name = None, s_completed = None, s_completed_at = None\<rparr>,
      \<lparr>s_username = ''sonu'', s_task_name = Some ''Kachra Fekna'', s_completed = Some False,
        s_completed_at = None\<rparr>]"
    unfolding status_rows_def
    by (simp add: january_db_def fresh_db_def sorted_users join_rows_def kachra_def pani_def
        default_users_def)
  show ?thesis
    unfolding getAllUsersStatus_def rows
    by (simp add: steady_def group_status_row_def obj_get_def Object_prototype_keys_def
        Object_values_def Object_entries_def usernames_not_indices)
qed

lemma getAllUsersStatus_entries:
  assumes ok: "\<not> driver_err e 0"
    and unique: "distinct (map u_username (users db))"
    and plain: "set (map u_username (users db)) \<inter> set Object_prototype_keys = {}"
    and named: "\<forall>t \<in> set (tasks db). t_name t \<noteq> []"
  shows "\<exists>entries. getAllUsersStatus e month year db = Inr entries
           \<and> mset entries = mset (map (status_of month year (tasks db)) (users db))"
proof -
  let ?us = "sort_key u_username (users db)"
  have m: "mset ?us = mset (users db)"
    by simp
  have "mset (map u_username ?us) = mset (map u_username (users db))"
    using m by (simp only: mset_map)
  then have d: "distinct (map u_username ?us)"
    using unique by (metis mset_eq_imp_distinct_iff)
  have s: "set (map u_username ?us) = set (map u_username (users db))"
    by simp
  have f: "fold group_status_row (status_rows month year db) (Inr []) =
      Inr (map (\<lambda>u. (u_username u, status_of month year (tasks db) u)) ?us)"
    unfolding status_rows_def
    using group_all_users [OF d _ _ named, of "[]" month year] plain
    unfolding s by simp
  have "mset (Object_values (map (\<lambda>u. (u_username u, status_of month year (tasks db) u)) ?us)) =
        mset (map (status_of month year (tasks db)) (users db))"
    unfolding Object_values_mset by (simp add: comp_def)
  then show ?thesis
    using ok by (simp add: getAllUsersStatus_def f)
qed

text \<open>
  C9. When the query succeeds, \<^verbatim>\<open>getAllUsersStatus\<close> returns exactly one entry for every row
  of the users table, whose user names are distinct (\<^verbatim>\<open>username TEXT UNIQUE\<close>), and the
  tasks of each entry are exactly the tasks of the period assigned to that user, each with
  its name, completed flag and completion timestamp; a user without tasks in the period has
  the empty list. SQL leaves the order of one user's rows open, so the task lists are
  compared as collections. Two facts about JavaScript objects delimit the statement: the
  user names are not names of properties that every object inherits (such as
  \<^verbatim>\<open>constructor\<close>), and task names are not empty.
\<close>

theorem getAllUsersStatus_one_entry_per_user:
  assumes ok: "\<not> driver_err e 0"
    and unique: "distinct (map u_username (users db))"
    and plain: "set (map u_username (users db)) \<inter> set Object_prototype_keys = {}"
    and named: "\<forall>t \<in> set (tasks db). t_name t \<noteq> []"
  shows "case getAllUsersStatus e month year db of
           Inr entries \<Rightarrow>
             mset (map us_username entries) = mset (map u_username (users db))
           \<and> (\<forall>entry \<in> set entries.
                 mset (us_tasks entry) =
                 mset (map task_view_of (tasks_of (us_username entry) month year (tasks db))))
         | Inl x \<Rightarrow> False"
proof -
  obtain entries where r: "getAllUsersStatus e month year db = Inr entries"
    and m: "mset entries = mset (map (status_of month year (tasks db)) (users db))"
    using getAllUsersStatus_entries [OF assms] by blast
  have "mset (map us_username entries) =
        mset (map us_username (map (status_of month year (tasks db)) (users db)))"
    using m by (simp only: mset_map)
  then have names: "mset (map us_username entries) = mset (map u_username (users db))"
    by (simp add: comp_def status_of_def)
  have "set entries = set (map (status_of month year (tasks db)) (users db))"
    using m by (rule mset_eq_setD)
  then have "\<forall>entry \<in> set entries.
      us_tasks entry = map task_view_of (tasks_of (us_username entry) month year (tasks db))"
    by (auto simp: status_of_def)
  then show ?thesis
    using names by (simp add: r)
qed

theorem getAllUsersStatus_one_entry_per_user_witness:
  "\<not> driver_err (steady ''2026-01-05 10:00:00'') 0
   \<and> distinct (map u_username (users january_db))
   \<and> set (map u_username (users january_db)) \<inter> set Object_prototype_keys = {}
   \<and> map t_name (tasks january_db) = [''Kachra Fekna'', ''Pani Lana'']
   \<and> getAllUsersStatus (steady ''2026-01-05 10:00:00'') 1 2026 january_db =
     Inr [\<lparr>us_username = ''deepanshu'', us_tasks = []\<rparr>,
          \<lparr>us_username = ''sachin'',
            us_tasks = [\<lparr>v_name = ''Pani Lana'', v_completed = False, v_completedAt = None\<rparr>]\<rparr>,
          \<lparr>us_username = ''sintu'', us_tasks = []\<rparr>,
          \<lparr>us_username = ''sonu'',
            us_tasks = [\<lparr>v_name = ''Kachra Fekna'', v_completed = False,
                         v_completedAt = None\<rparr>]\<rparr>]"
proof -
  have ok: "\<not> driver_err (steady ''2026-01-05 10:00:00'') 0"
    by (simp add: steady_def)
  have unique: "distinct (map u_username (users january_db))"
    by (simp add: january_db_def fresh_db_def default_users_def)
  have plain: "set (map u_username (users january_db)) \<inter> set Object_prototype_keys = {}"
    by (simp add: january_db_def fresh_db_def default_users_def Object_prototype_keys_def)
  have ts: "map t_name (tasks january_db) = [''Kachra Fekna'', ''Pani Lana'']"
    by (simp add: january_db_def kachra_def pani_def)
  have named: "\<forall>t \<in> set (tasks january_db). t_name t \<noteq> []"
    by (simp add: january_db_def kachra_def pani_def)
  show ?thesis
    by (insert getAllUsersStatus_one_entry_per_user [OF ok unique plain named, of 1 2026])
       (intro conjI ok unique plain ts january_status)
qed

text \<open>
  Why the user names must not be inherited property names: \<^verbatim>\<open>userStatus['constructor']\<close> is
  truthy on the empty object, so no entry is made for a user of that name.
\<close>

lemma getAllUsersStatus_inherited_name:
  "getAllUsersStatus (steady ''2026-01-05 10:00:00'') 1 2026 constructor_db =
     Inr [\<lparr>us_username = ''deepanshu'', us_tasks = []\<rparr>,
          \<lparr>us_username = ''sachin'', us_tasks = []\<rparr>,
          \<lparr>us_username = ''sintu'', us_tasks = []\<rparr>,
          \<lparr>us_username = ''sonu'', us_tasks = []\<rparr>]"
proof -
  have sorted: "sort_key u_username (users constructor_db) =
      [users constructor_db ! 4, users constructor_db ! 0, users constructor_db ! 2,
       users constructor_db ! 3, users constructor_db ! 1]"
    by (simp add: constructor_db_def fresh_db_def default_users_def)
  have rows: "status_rows 1 2026 constructor_db =
     map (\<lambda>k. \<lparr>s_username = k, s_task_name = None, s_completed = None, s_completed_at = None\<rparr>)
       [''constructor'', ''deepanshu'', ''sachin'', ''sintu'', ''sonu'']"
    unfolding status_rows_def sorted
    by (simp add: constructor_db_def fresh_db_def join_rows_def default_users_def)
  show ?thesis
    unfolding getAllUsersStatus_def rows
    by (simp add: steady_def group_status_row_def obj_get_def Object_prototype_keys_def
        Object_values_def Object_entries_def usernames_not_indices)
qed

end
